theory Spec2Isabelle
  imports Main
begin

chapter \<open>Espells: lookup, form validation, compounding and suggestion handling\<close>

text \<open>
  A shallow embedding of the parts of Espells (a Hunspell port in TypeScript) that its
  specification makes claims about: \<^verbatim>\<open>src/lookup/index.ts\<close> (Lookup),
  \<^verbatim>\<open>src/lookup/decompose.ts\<close>, \<^verbatim>\<open>src/lookup/affixes.ts\<close>,
  \<^verbatim>\<open>src/lookup/forms.ts\<close>, \<^verbatim>\<open>src/lookup/compounds.ts\<close>,
  \<^verbatim>\<open>src/lookup/lk-word.ts\<close> and \<^verbatim>\<open>src/suggest/index.ts\<close>.

  Conventions. A JavaScript string is a list of code units (\<open>string\<close>); an optional
  value (\<^verbatim>\<open>T | undefined\<close>) is an \<open>option\<close>; a \<^verbatim>\<open>Set\<close> whose order is never
  observed is a HOL set, one that is iterated is a list in insertion order; a generator is
  the list of the values it yields, in order. Record fields carry a short prefix
  (\<open>w_\<close> Word, \<open>a_\<close> Prefix/Suffix, \<open>f_\<close> AffixForm, \<open>lk_\<close> LKFlags, \<open>lw_\<close> LKWord) because
  several classes share field names.
\<close>

section \<open>Data model\<close>

subsection \<open>Flags\<close>

type_synonym Flag = string
type_synonym Flags = "Flag set"

text \<open>JavaScript truthiness of an optional flag (\<^verbatim>\<open>if (aff.NEEDAFFIX)\<close>): \<^verbatim>\<open>undefined\<close>
  and the empty string are falsy.\<close>

definition truthy :: "Flag option \<Rightarrow> bool" where
  "truthy f = (case f of None \<Rightarrow> False | Some s \<Rightarrow> s \<noteq> [])"

text \<open>\<^verbatim>\<open>Set.prototype.has\<close> on a set of flags, asked for an optional flag.\<close>

definition Set_has :: "Flags \<Rightarrow> Flag option \<Rightarrow> bool" where
  "Set_has fs f = (case f of None \<Rightarrow> False | Some x \<Rightarrow> x \<in> fs)"

text \<open>Modelled from the spec: \<^verbatim>\<open>includes(flag, flags)\<close> of \<^verbatim>\<open>src/util\<close>, which is not
  among the sources ("dictionary Word's flags do not include NOSUGGEST"): the flag is
  defined and a member of the set.\<close>

definition includes_flag :: "Flag option \<Rightarrow> Flags \<Rightarrow> bool" where
  "includes_flag f fs = (case f of None \<Rightarrow> False | Some x \<Rightarrow> x \<in> fs)"

text \<open>Modelled from the spec: \<^verbatim>\<open>concat(a, b)\<close> of \<^verbatim>\<open>src/util\<close> ("flags(form) =
  word.flags \<union> prefix.flags \<union> suffix.flags"): the union of two flag sets.\<close>

definition concat_flags :: "Flags \<Rightarrow> Flags \<Rightarrow> Flags" where
  "concat_flags a b = a \<union> b"

subsection \<open>Capitalization kinds and compound positions (\<^verbatim>\<open>src/constants\<close>)\<close>

datatype CapType = NO | INIT | CapType_ALL | HUH | HUHINIT

datatype CompoundPos = BEGIN | MIDDLE | END

subsection \<open>Dictionary words (\<^verbatim>\<open>src/dic/word.ts\<close>, class Word)\<close>

record Word =
  w_stem :: string
  w_capType :: CapType
  w_flags :: "Flags option"
  w_altSpellings :: "string list option"

text \<open>\<^verbatim>\<open>word.flags ?? new Set()\<close>.\<close>

definition rootFlagsOf :: "Word \<Rightarrow> Flags" where
  "rootFlagsOf d = (case w_flags d of None \<Rightarrow> {} | Some fs \<Rightarrow> fs)"

text \<open>Modelled from the spec: \<^verbatim>\<open>Word.has(flag)\<close>, called by \<^verbatim>\<open>hasForbidden\<close> but declared in
  a later revision of the class than the one in the sources: the Word carries the flag.\<close>

definition Word_has :: "Word \<Rightarrow> Flag option \<Rightarrow> bool" where
  "Word_has d f = Set_has (rootFlagsOf d) f"

subsection \<open>Affix entries (\<^verbatim>\<open>src/aff/affix.ts\<close>, classes Prefix and Suffix)\<close>

text \<open>Modelled from the spec: the file is not among the sources. An entry has "the owning
  class flag; a strip string; an add string; a condition (regex-equivalent predicate on the
  stem at that end); a crossproduct bit; an auxiliary FlagSet".\<close>

record Affix =
  a_flag :: Flag
  a_crossproduct :: bool
  a_strip :: string
  a_add :: string
  a_cond :: "string \<Rightarrow> bool"
  a_flags :: Flags

definition Affix_has :: "Affix \<Rightarrow> Flag option \<Rightarrow> bool" where
  "Affix_has a f = Set_has (a_flags a) f"

subsection \<open>Affix forms (\<^verbatim>\<open>src/lookup/forms.ts\<close>, class AffixForm)\<close>

record AffixForm =
  f_text :: string
  f_stem :: string
  f_prefix :: "Affix option"
  f_suffix :: "Affix option"
  f_prefix2 :: "Affix option"
  f_suffix2 :: "Affix option"
  f_inDictionary :: "Word option"

type_synonym CompoundForm = "AffixForm list"

text \<open>\<^verbatim>\<open>new AffixForm(text, stem, {prefix, suffix, prefix2, suffix2, inDictionary})\<close>; \<open>stem\<close>
  defaults to the text.\<close>

definition AffixForm_new :: "string \<Rightarrow> AffixForm" where
  "AffixForm_new t =
     \<lparr>f_text = t, f_stem = t, f_prefix = None, f_suffix = None, f_prefix2 = None,
      f_suffix2 = None, f_inDictionary = None\<rparr>"

text \<open>\<^verbatim>\<open>get hasAffixes() { return Boolean(this.suffix || this.prefix) }\<close>\<close>

definition hasAffixes :: "AffixForm \<Rightarrow> bool" where
  "hasAffixes form = (\<not> (f_suffix form = None \<and> f_prefix form = None))"

text \<open>The getter \<^verbatim>\<open>flags\<close>:
  \<^verbatim>\<open>let flags = this.inDictionary?.flags ?? new Set()
  if (this.prefix) flags = concat(flags, this.prefix.flags)
  if (this.suffix) flags = concat(flags, this.suffix.flags)
  return flags\<close>\<close>

definition AffixForm_flags :: "AffixForm \<Rightarrow> Flags" where
  "AffixForm_flags form =
     (let flags0 = (case f_inDictionary form of None \<Rightarrow> {} | Some d \<Rightarrow> rootFlagsOf d);
          flags1 = (case f_prefix form of None \<Rightarrow> flags0
                    | Some p \<Rightarrow> concat_flags flags0 (a_flags p));
          flags2 = (case f_suffix form of None \<Rightarrow> flags1
                    | Some s \<Rightarrow> concat_flags flags1 (a_flags s))
      in flags2)"

text \<open>\<^verbatim>\<open>affixes()\<close>: \<^verbatim>\<open>[prefix2, prefix, suffix, suffix2].filter(affix => Boolean(affix))\<close>.\<close>

definition affixes_of :: "AffixForm \<Rightarrow> Affix list" where
  "affixes_of form =
     List.map_filter (\<lambda>x. x) [f_prefix2 form, f_prefix form, f_suffix form, f_suffix2 form]"

subsection \<open>Lookup words (\<^verbatim>\<open>src/lookup/lk-word.ts\<close>, class LKWord)\<close>

text \<open>The references \<^verbatim>\<open>aff\<close> and \<^verbatim>\<open>dic\<close> of an LKWord are passed to the functions
  below as arguments of their own.\<close>

record LKWord =
  lw_word :: string
  lw_type :: CapType
  lw_pos :: "CompoundPos option"

text \<open>Indexing a JavaScript string: \<^verbatim>\<open>undefined\<close> outside \<open>0 .. length - 1\<close>.\<close>

definition js_index :: "string \<Rightarrow> int \<Rightarrow> char option" where
  "js_index s i = (if 0 \<le> i \<and> i < int (length s) then Some (s ! nat i) else None)"

text \<open>\<^verbatim>\<open>LKWord.at\<close> as the first copy of the class has it (lk-word.ts, lines 96-99):
  \<^verbatim>\<open>if (n < 0) return this.word[this.word.length - n]
  return this.word[n]\<close>\<close>

definition LKWord_at_l96 :: "LKWord \<Rightarrow> int \<Rightarrow> char option" where
  "LKWord_at_l96 w n =
     (if n < 0 then js_index (lw_word w) (int (length (lw_word w)) - n)
      else js_index (lw_word w) n)"

text \<open>\<^verbatim>\<open>LKWord.at\<close> as the second copy of the class has it (lk-word.ts, lines 488-491):
  \<^verbatim>\<open>if (n < 0) return this.word[this.word.length + n]
  return this.word[n]\<close>\<close>

definition LKWord_at :: "LKWord \<Rightarrow> int \<Rightarrow> char option" where
  "LKWord_at w n =
     (if n < 0 then js_index (lw_word w) (int (length (lw_word w)) + n)
      else js_index (lw_word w) n)"


section \<open>Affix data (\<^verbatim>\<open>src/aff/index.ts\<close>, class Aff)\<close>

text \<open>Objects whose classes are not among the sources are represented by the one method
  the modelled code calls on them: a \<^verbatim>\<open>BREAK\<close> regular expression by
  \<^verbatim>\<open>text.matchAll(pattern)\<close> (the index and the length of every match, in order), a
  CompoundRule by \<^verbatim>\<open>rule.match(flagSets, partial)\<close>, a CompoundPattern by
  \<^verbatim>\<open>pattern.match(left, right)\<close>, a ConvTable by \<^verbatim>\<open>table.match(word)\<close>, and the Casing
  object by its methods.\<close>

type_synonym BreakPattern = "string \<Rightarrow> (nat \<times> nat) list"
type_synonym CompoundRule = "Flags list \<Rightarrow> bool \<Rightarrow> bool"
type_synonym CompoundPattern = "AffixForm \<Rightarrow> AffixForm \<Rightarrow> bool"
type_synonym ConvTable = "string \<Rightarrow> string"

record Casing =
  c_guess :: "string \<Rightarrow> CapType"
  c_variants :: "string \<Rightarrow> CapType \<times> string list"
  c_coerce :: "string \<Rightarrow> CapType \<Rightarrow> string"

record Aff =
  IGNORE :: "string list option"
  CHECKSHARPS :: bool
  FORBIDDENWORD :: "Flag option"
  NOSUGGEST :: "Flag option"
  KEEPCASE :: "Flag option"
  REP :: "(string \<times> string) list"
  PHONE :: "(string \<times> string) list option"
  MAXNGRAMSUGS :: nat
  PFX :: "(Flag \<times> Affix list) list"
  SFX :: "(Flag \<times> Affix list) list"
  NEEDAFFIX :: "Flag option"
  CIRCUMFIX :: "Flag option"
  COMPLEXPREFIXES :: bool
  BREAK :: "BreakPattern list"
  COMPOUNDRULE :: "CompoundRule list"
  COMPOUNDMIN :: nat
  COMPOUNDWORDMAX :: "nat option"
  COMPOUNDFLAG :: "Flag option"
  COMPOUNDBEGIN :: "Flag option"
  COMPOUNDMIDDLE :: "Flag option"
  COMPOUNDEND :: "Flag option"
  ONLYINCOMPOUND :: "Flag option"
  COMPOUNDPERMITFLAG :: "Flag option"
  COMPOUNDFORBIDFLAG :: "Flag option"
  FORCEUCASE :: "Flag option"
  CHECKCOMPOUNDCASE :: bool
  CHECKCOMPOUNDREP :: bool
  CHECKCOMPOUNDTRIPLE :: bool
  CHECKCOMPOUNDDUP :: bool
  CHECKCOMPOUNDPATTERN :: "CompoundPattern list"
  SIMPLIFIEDTRIPLE :: bool
  ICONV :: "ConvTable option"
  OCONV :: "ConvTable option"
  WARN :: "Flag option"
  FORBIDWARN :: bool
  casing :: Casing

text \<open>Substring test, \<^verbatim>\<open>String.prototype.includes\<close>.\<close>

definition str_includes :: "string \<Rightarrow> string \<Rightarrow> bool" where
  "str_includes s sub = list_ex (\<lambda>i. take (length sub) (drop i s) = sub) [0..<Suc (length s)]"

text \<open>The letter sharp s, the code unit U+00DF.\<close>

definition eszett :: string where
  "eszett = [CHR 0xDF]"

text \<open>\<^verbatim>\<open>isSharps(word) { if (!this.CHECKSHARPS) return false; return word.includes("\<beta>") }\<close>
  (the argument of \<^verbatim>\<open>includes\<close> is the sharp s).\<close>

definition isSharps :: "Aff \<Rightarrow> string \<Rightarrow> bool" where
  "isSharps aff word = (if \<not> CHECKSHARPS aff then False else str_includes word eszett)"

section \<open>Form validation\<close>

subsection \<open>\<^verbatim>\<open>AffixForm.valid\<close> (forms.ts as stored in \<^verbatim>\<open>src/src/dic/word.ts\<close>, lines 280-333)\<close>

text \<open>The NEEDAFFIX step (lines 298-306); the value is whether the step returns
  \<^verbatim>\<open>false\<close> from \<^verbatim>\<open>valid\<close>:
  \<^verbatim>\<open>if (aff.NEEDAFFIX) {
    if (this.hasAffixes) {
      if (this.affixes().every(affix => affix.has(aff.NEEDAFFIX))) return false
    } else if (rootFlags.has(aff.NEEDAFFIX)) return false
  }\<close>\<close>

definition valid_NEEDAFFIX_rejects :: "Aff \<Rightarrow> AffixForm \<Rightarrow> Flags \<Rightarrow> bool" where
  "valid_NEEDAFFIX_rejects aff form rootFlags =
     (if truthy (NEEDAFFIX aff) then
        (if hasAffixes form
         then list_all (\<lambda>affix. Affix_has affix (NEEDAFFIX aff)) (affixes_of form)
         else Set_has rootFlags (NEEDAFFIX aff))
      else False)"

text \<open>The position switch (lines 324-332). There is no \<^verbatim>\<open>break\<close> between the cases, so
  control falls through from the matching case to the last one:
  \<^verbatim>\<open>let passes = false
  switch(word.pos) {
    case CompoundPos.BEGIN:  passes = includes(aff.COMPOUNDBEGIN,  allFlags)
    case CompoundPos.MIDDLE: passes = includes(aff.COMPOUNDMIDDLE, allFlags)
    case CompoundPos.END:    passes = includes(aff.COMPOUNDEND,    allFlags)
  }
  return passes\<close>\<close>

definition valid_position :: "Aff \<Rightarrow> CompoundPos option \<Rightarrow> Flags \<Rightarrow> bool" where
  "valid_position aff pos allFlags =
     (let passes0 = False;
          passes1 = (if pos = Some BEGIN
                     then includes_flag (COMPOUNDBEGIN aff) allFlags else passes0);
          passes2 = (if pos = Some BEGIN \<or> pos = Some MIDDLE
                     then includes_flag (COMPOUNDMIDDLE aff) allFlags else passes1);
          passes3 = (if pos = Some BEGIN \<or> pos = Some MIDDLE \<or> pos = Some END
                     then includes_flag (COMPOUNDEND aff) allFlags else passes2)
      in passes3)"

definition valid :: "Aff \<Rightarrow> AffixForm \<Rightarrow> LKWord \<Rightarrow> bool \<Rightarrow> bool" where
  "valid aff form word allowNoSuggest =
     (case f_inDictionary form of
        None \<Rightarrow> False
      | Some d \<Rightarrow>
         (let rootFlags = rootFlagsOf d;
              allFlags = AffixForm_flags form;
              suffixHas = (case f_suffix form of None \<Rightarrow> False
                           | Some s \<Rightarrow> Affix_has s (CIRCUMFIX aff));
              prefixHas = (case f_prefix form of None \<Rightarrow> False
                           | Some p \<Rightarrow> Affix_has p (CIRCUMFIX aff))
          in
            if \<not> allowNoSuggest \<and> includes_flag (NOSUGGEST aff) rootFlags then False
            else if lw_type word \<noteq> w_capType d \<and> includes_flag (KEEPCASE aff) rootFlags
                    \<and> \<not> isSharps aff (w_stem d) then False
            else if valid_NEEDAFFIX_rejects aff form rootFlags then False
            else if (case f_prefix form of None \<Rightarrow> False | Some p \<Rightarrow> a_flag p \<notin> allFlags)
              then False
            else if (case f_suffix form of None \<Rightarrow> False | Some s \<Rightarrow> a_flag s \<notin> allFlags)
              then False
            else if truthy (CIRCUMFIX aff) \<and> suffixHas \<noteq> prefixHas then False
            else if lw_pos word = None
              then (if \<not> includes_flag (ONLYINCOMPOUND aff) allFlags then True else False)
            else if includes_flag (COMPOUNDFLAG aff) allFlags then True
            else valid_position aff (lw_pos word) allFlags))"

subsection \<open>\<^verbatim>\<open>validForm\<close> (affixes.ts, stored as \<^verbatim>\<open>src/unnamed/part_000\<close>, lines 86-130)\<close>

text \<open>\<^verbatim>\<open>AffixForm.has\<close>, which this revision calls, is not among the sources; it is the
  parameter \<open>form_has\<close>. The NEEDAFFIX step (lines 104-106):
  \<^verbatim>\<open>if (aff.NEEDAFFIX) {
    if (form.has(aff.NEEDAFFIX) || rootFlags.has(aff.NEEDAFFIX)) return false
  }\<close>\<close>

definition validForm_NEEDAFFIX_rejects ::
  "(AffixForm \<Rightarrow> Flag option \<Rightarrow> bool) \<Rightarrow> Aff \<Rightarrow> AffixForm \<Rightarrow> Flags \<Rightarrow> bool" where
  "validForm_NEEDAFFIX_rejects form_has aff form rootFlags =
     (if truthy (NEEDAFFIX aff)
      then (form_has form (NEEDAFFIX aff) \<or> Set_has rootFlags (NEEDAFFIX aff))
      else False)"

text \<open>The position switch (lines 125-129); every case returns:
  \<^verbatim>\<open>switch(word.pos) {
    case CompoundPos.BEGIN:  return includes(aff.COMPOUNDBEGIN,  allFlags)
    case CompoundPos.MIDDLE: return includes(aff.COMPOUNDMIDDLE, allFlags)
    case CompoundPos.END:    return includes(aff.COMPOUNDEND,    allFlags)
  }\<close>
  With no matching case the function returns \<^verbatim>\<open>undefined\<close>, which is falsy.\<close>

definition validForm_position :: "Aff \<Rightarrow> CompoundPos option \<Rightarrow> Flags \<Rightarrow> bool" where
  "validForm_position aff pos allFlags =
     (case pos of
        Some BEGIN \<Rightarrow> includes_flag (COMPOUNDBEGIN aff) allFlags
      | Some MIDDLE \<Rightarrow> includes_flag (COMPOUNDMIDDLE aff) allFlags
      | Some END \<Rightarrow> includes_flag (COMPOUNDEND aff) allFlags
      | None \<Rightarrow> False)"

definition validForm ::
  "(AffixForm \<Rightarrow> Flag option \<Rightarrow> bool) \<Rightarrow> Aff \<Rightarrow> AffixForm \<Rightarrow> LKWord \<Rightarrow> bool \<Rightarrow> bool" where
  "validForm form_has aff form word allowNoSuggest =
     (case f_inDictionary form of
        None \<Rightarrow> False
      | Some d \<Rightarrow>
         (let rootFlags = rootFlagsOf d;
              allFlags = AffixForm_flags form;
              suffixHas = (case f_suffix form of None \<Rightarrow> False
                           | Some s \<Rightarrow> Affix_has s (CIRCUMFIX aff));
              prefixHas = (case f_prefix form of None \<Rightarrow> False
                           | Some p \<Rightarrow> Affix_has p (CIRCUMFIX aff))
          in
            if \<not> allowNoSuggest \<and> includes_flag (NOSUGGEST aff) rootFlags then False
            else if lw_type word \<noteq> w_capType d \<and> includes_flag (KEEPCASE aff) rootFlags
                    \<and> \<not> isSharps aff (w_stem d) then False
            else if validForm_NEEDAFFIX_rejects form_has aff form rootFlags then False
            else if (case f_prefix form of None \<Rightarrow> False | Some p \<Rightarrow> a_flag p \<notin> allFlags)
              then False
            else if (case f_suffix form of None \<Rightarrow> False | Some s \<Rightarrow> a_flag s \<notin> allFlags)
              then False
            else if truthy (CIRCUMFIX aff) \<and> suffixHas \<noteq> prefixHas then False
            else if lw_pos word = None
              then (if \<not> includes_flag (ONLYINCOMPOUND aff) allFlags then True else False)
            else if includes_flag (COMPOUNDFLAG aff) allFlags then True
            else validForm_position aff (lw_pos word) allFlags))"


section \<open>Breaking words (\<^verbatim>\<open>src/lookup/decompose.ts\<close>, lines 26-38)\<close>

text \<open>\<^verbatim>\<open>export function* breakWord(aff, text, depth = 0) {
    if (depth > 10) return
    yield [text].filter(Boolean)
    for (const pattern of aff.BREAK) {
      for (const m of text.matchAll(pattern)) {
        const start = text.slice(0, m.index!)
        const rest = text.slice(m.index! + m[0].length)
        for (const breaking of breakWord(aff, rest, depth + 1)) {
          yield [start, ...breaking].filter(Boolean)
        }
      }
    }
  }\<close>
  \<^verbatim>\<open>filter(Boolean)\<close> drops the empty strings.\<close>

definition filter_Boolean :: "string list \<Rightarrow> string list" where
  "filter_Boolean xs = filter (\<lambda>s. s \<noteq> []) xs"

function breakWord :: "Aff \<Rightarrow> string \<Rightarrow> nat \<Rightarrow> string list list" where
  "breakWord aff text depth =
     (if depth > 10 then []
      else filter_Boolean [text] #
           concat (map (\<lambda>pattern.
             concat (map (\<lambda>m.
               (let start = take (fst m) text;
                    rest = drop (fst m + snd m) text
                in map (\<lambda>breaking. filter_Boolean (start # breaking))
                       (breakWord aff rest (depth + 1))))
               (pattern text)))
             (BREAK aff)))"
  by pat_completeness auto
termination
  by (relation "measure (\<lambda>(aff, text, depth). 11 - depth)") auto

declare breakWord.simps [simp del]

text \<open>Modelled from the spec: \<^verbatim>\<open>C.DEFAULT_BREAK\<close> of \<^verbatim>\<open>src/constants\<close>, which is not among
  the sources ("defaults include \<^verbatim>\<open>^-\<close>, \<^verbatim>\<open>-$\<close>, \<^verbatim>\<open>-\<close>"), each pattern given by its
  matches in a text.\<close>

definition break_start_dash :: BreakPattern where
  "break_start_dash text = (if take 1 text = ''-'' then [(0, 1)] else [])"

definition break_end_dash :: BreakPattern where
  "break_end_dash text =
     (if text \<noteq> [] \<and> last text = CHR ''-'' then [(length text - 1, 1)] else [])"

definition break_dash :: BreakPattern where
  "break_dash text = map (\<lambda>i. (i, 1)) (filter (\<lambda>i. text ! i = CHR ''-'') [0..<length text])"

definition DEFAULT_BREAK :: "BreakPattern list" where
  "DEFAULT_BREAK = [break_start_dash, break_end_dash, break_dash]"

text \<open>The field initializers of class Aff (index.ts, lines 43-102); the Casing object is
  chosen by the constructor and is a parameter here.\<close>

definition Aff_default :: "Casing \<Rightarrow> Aff" where
  "Aff_default c =
     \<lparr>IGNORE = None, CHECKSHARPS = False, FORBIDDENWORD = None, NOSUGGEST = None,
      KEEPCASE = None, REP = [], PHONE = None, MAXNGRAMSUGS = 4, PFX = [], SFX = [],
      NEEDAFFIX = None, CIRCUMFIX = None, COMPLEXPREFIXES = False, BREAK = DEFAULT_BREAK,
      COMPOUNDRULE = [], COMPOUNDMIN = 3, COMPOUNDWORDMAX = None, COMPOUNDFLAG = None,
      COMPOUNDBEGIN = None, COMPOUNDMIDDLE = None, COMPOUNDEND = None,
      ONLYINCOMPOUND = None, COMPOUNDPERMITFLAG = None, COMPOUNDFORBIDFLAG = None,
      FORCEUCASE = None, CHECKCOMPOUNDCASE = False, CHECKCOMPOUNDREP = False,
      CHECKCOMPOUNDTRIPLE = False, CHECKCOMPOUNDDUP = False, CHECKCOMPOUNDPATTERN = [],
      SIMPLIFIEDTRIPLE = False, ICONV = None, OCONV = None, WARN = None,
      FORBIDWARN = False, casing = c\<rparr>"


section \<open>Collaborators outside the sources\<close>

text \<open>Module-level functions of \<^verbatim>\<open>src/util\<close>, \<^verbatim>\<open>src/permutations\<close> and \<^verbatim>\<open>src/constants\<close>
  that the modelled code calls; none of these files is among the sources, so the functions
  are parameters: \<^verbatim>\<open>lowercase\<close>, \<^verbatim>\<open>uppercase\<close> (applied to one optional character),
  \<^verbatim>\<open>isUppercased\<close> (applied to one optional character), \<^verbatim>\<open>isTriplet\<close>,
  \<^verbatim>\<open>replchars(word, REP)\<close> (a result is a string or an array of strings) and
  \<^verbatim>\<open>C.NUMBER_REGEX.test\<close>.\<close>

record Util =
  u_lowercase :: "string \<Rightarrow> string"
  u_uppercase :: "char option \<Rightarrow> char option"
  u_isUppercased :: "char option \<Rightarrow> bool"
  u_isTriplet :: "string \<Rightarrow> bool"
  u_replchars :: "string \<Rightarrow> (string \<times> string) list \<Rightarrow> (string + string list) list"
  u_NUMBER_REGEX :: "string \<Rightarrow> bool"

section \<open>The dictionary index (\<^verbatim>\<open>src/dic/index.ts\<close>, class Dic)\<close>

text \<open>Modelled from the spec: class Dic is not among the sources. The dictionary is the list
  of its Words in insertion order; adding a Word appends it.

  "\<^verbatim>\<open>homonyms(stem, caseInsensitive=false)\<close>: case-sensitive query hits exact matches;
  case-insensitive query hits all Words whose lowercased stem equals lowercase(stem)."

  "\<^verbatim>\<open>hasFlag(stem, flag, all=false)\<close> returns whether any (or with \<^verbatim>\<open>all=true\<close>, all)
  homonym of stem carries flag." A stem without homonyms has no flag, also when all
  homonyms are asked for: otherwise \<^verbatim>\<open>isForbidden\<close> would hold of every word that is not
  itself a stem, and scenario S1 of the spec (\<open>hellos\<close> is correct) would fail. An undefined
  flag is carried by no Word.\<close>

type_synonym Dic = "Word list"

definition homonyms :: "Util \<Rightarrow> Dic \<Rightarrow> string \<Rightarrow> bool \<Rightarrow> Word list" where
  "homonyms u dic stem caseInsensitive =
     (if caseInsensitive
      then filter (\<lambda>w. u_lowercase u (w_stem w) = u_lowercase u stem) dic
      else filter (\<lambda>w. w_stem w = stem) dic)"

definition hasFlag :: "Util \<Rightarrow> Dic \<Rightarrow> string \<Rightarrow> Flag option \<Rightarrow> bool \<Rightarrow> bool" where
  "hasFlag u dic stem flag all =
     (let hs = homonyms u dic stem False in
      if hs = [] then False
      else if all then list_all (\<lambda>w. Word_has w flag) hs
      else list_ex (\<lambda>w. Word_has w flag) hs)"

definition Dic_add :: "Dic \<Rightarrow> Word \<Rightarrow> Dic" where
  "Dic_add dic w = dic @ [w]"

section \<open>Decomposition (\<^verbatim>\<open>src/lookup/decompose.ts\<close>)\<close>

subsection \<open>LKFlags (\<^verbatim>\<open>src/lookup/lk-flags.ts\<close>)\<close>

record LKFlags =
  lk_prefix :: Flags
  lk_suffix :: Flags
  lk_forbidden :: Flags

text \<open>\<^verbatim>\<open>new LKFlags()\<close>: every set defaults to the empty set.\<close>

definition LKFlags_new :: LKFlags where
  "LKFlags_new = \<lparr>lk_prefix = {}, lk_suffix = {}, lk_forbidden = {}\<rparr>"

text \<open>\<^verbatim>\<open>static from(prefix, suffix, forbidden)\<close>\<close>

definition LKFlags_from :: "Flags \<Rightarrow> Flags \<Rightarrow> Flags \<Rightarrow> LKFlags" where
  "LKFlags_from p s f = \<lparr>lk_prefix = p, lk_suffix = s, lk_forbidden = f\<rparr>"

subsection \<open>Affix entries at work\<close>

datatype AffixType = PREFIX | SUFFIX

text \<open>Modelled from the spec: the methods of Prefix and Suffix (\<^verbatim>\<open>src/aff/affix.ts\<close>).
  "\<^verbatim>\<open>apply(surface)\<close> = strip off \<open>add\<close> at the affix end and restore \<open>strip\<close>";
  "\<^verbatim>\<open>on(surface)\<close> tests \<^verbatim>\<open>surface.startsWith(add)\<close> (prefix) or
  \<^verbatim>\<open>surface.endsWith(add)\<close> (suffix) AND that the condition matches the portion that would
  remain after strip is restored"; "\<^verbatim>\<open>compatible(required, forbidden)\<close>: when required is
  empty, treat as any; otherwise require intersection; forbidden must be disjoint".\<close>

definition Affix_apply :: "AffixType \<Rightarrow> Affix \<Rightarrow> string \<Rightarrow> string" where
  "Affix_apply ty a surface =
     (case ty of
        PREFIX \<Rightarrow> a_strip a @ drop (length (a_add a)) surface
      | SUFFIX \<Rightarrow> take (length surface - length (a_add a)) surface @ a_strip a)"

definition Affix_on :: "AffixType \<Rightarrow> Affix \<Rightarrow> string \<Rightarrow> bool" where
  "Affix_on ty a surface =
     (case ty of
        PREFIX \<Rightarrow> take (length (a_add a)) surface = a_add a
                  \<and> a_cond a (Affix_apply PREFIX a surface)
      | SUFFIX \<Rightarrow> length (a_add a) \<le> length surface
                  \<and> drop (length surface - length (a_add a)) surface = a_add a
                  \<and> a_cond a (Affix_apply SUFFIX a surface))"

definition Affix_compatible :: "Affix \<Rightarrow> Flags \<Rightarrow> Flags \<Rightarrow> bool" where
  "Affix_compatible a required forbidden =
     ((if required = {} then True else a_flags a \<inter> required \<noteq> {})
      \<and> a_flags a \<inter> forbidden = {})"

subsection \<open>The affix indexes\<close>

text \<open>The constructor of Aff (index.ts, lines 329-345) files every prefix under its
  \<open>add\<close> string and every suffix under its reversed \<open>add\<close> string, class by class.

  Modelled from the spec: \<^verbatim>\<open>Trie.segments\<close> (\<^verbatim>\<open>src/trie\<close> is not among the sources):
  "\<^verbatim>\<open>segments(s)\<close> yields, for each prefix of s, the set stored at the node reached by that
  prefix".\<close>

definition prefixesIndex :: "Aff \<Rightarrow> (string \<times> Affix) list" where
  "prefixesIndex aff = concat (map (\<lambda>entry. map (\<lambda>p. (a_add p, p)) (snd entry)) (PFX aff))"

definition suffixesIndex :: "Aff \<Rightarrow> (string \<times> Affix) list" where
  "suffixesIndex aff = concat (map (\<lambda>entry. map (\<lambda>s. (rev (a_add s), s)) (snd entry)) (SFX aff))"

definition segments :: "(string \<times> Affix) list \<Rightarrow> string \<Rightarrow> Affix list list" where
  "segments index s =
     map (\<lambda>i. map snd (filter (\<lambda>entry. fst entry = take i s) index)) [0..<Suc (length s)]"

subsection \<open>\<^verbatim>\<open>affixes\<close> (lines 83-107)\<close>

text \<open>\<^verbatim>\<open>for (const segment of segments) {
    for (const affix of segment) {
      if (isSuffix && !(!crossproduct || affix.crossproduct)) continue
      if (!affix.on(word)) continue
      if (!affix.compatible(required, flags.forbidden)) continue
      yield affix
    }
  }\<close>\<close>

definition affixes :: "Aff \<Rightarrow> AffixType \<Rightarrow> string \<Rightarrow> LKFlags \<Rightarrow> bool \<Rightarrow> Affix list" where
  "affixes aff ty word flags crossproduct =
     (let isSuffix = (ty = SUFFIX);
          segs = (if isSuffix then segments (suffixesIndex aff) (rev word)
                  else segments (prefixesIndex aff) word);
          required = (if isSuffix then lk_suffix flags else lk_prefix flags)
      in filter (\<lambda>affix.
                   \<not> (isSuffix \<and> \<not> (\<not> crossproduct \<or> a_crossproduct affix))
                   \<and> Affix_on ty affix word
                   \<and> Affix_compatible affix required (lk_forbidden flags))
                (concat segs))"

subsection \<open>\<^verbatim>\<open>desuffix\<close> (lines 119-138) and \<^verbatim>\<open>deprefix\<close> (lines 149-167)\<close>

text \<open>\<^verbatim>\<open>for (const suffix of affixes(aff, AffixType.SUFFIX, word, flags, crossproduct)) {
    const stem = suffix.apply(word)
    yield new AffixForm(word, stem, { suffix })
    if (!nested) {
      const newFlags = flags.replace({ suffix: concat(suffix.flags, flags.suffix) })
      for (const form2 of desuffix(aff, stem, newFlags, crossproduct, true)) {
        yield form2.replace({ text: word, suffix2: suffix })
      }
    }
  }\<close>\<close>

function desuffix :: "Aff \<Rightarrow> string \<Rightarrow> LKFlags \<Rightarrow> bool \<Rightarrow> bool \<Rightarrow> AffixForm list" where
  "desuffix aff word flags crossproduct nested =
     concat (map (\<lambda>suffix.
       (let stem = Affix_apply SUFFIX suffix word in
        (AffixForm_new word)\<lparr>f_stem := stem, f_suffix := Some suffix\<rparr> #
        (if \<not> nested
         then (let newFlags = flags\<lparr>lk_suffix := concat_flags (a_flags suffix) (lk_suffix flags)\<rparr>
               in map (\<lambda>form2. form2\<lparr>f_text := word, f_suffix2 := Some suffix\<rparr>)
                      (desuffix aff stem newFlags crossproduct True))
         else [])))
       (affixes aff SUFFIX word flags crossproduct))"
  by pat_completeness auto
termination
  by (relation "measure (\<lambda>(aff, word, flags, crossproduct, nested). if nested then 0 else 1)")
     auto

declare desuffix.simps [simp del]

text \<open>\<^verbatim>\<open>for (const prefix of affixes(aff, AffixType.PREFIX, word, flags)) {
    const stem = prefix.apply(word)
    yield new AffixForm(word, stem, { prefix })
    if (!nested && aff.COMPLEXPREFIXES) {
      const newFlags = flags.replace({ prefix: concat(prefix.flags, flags.prefix) })
      for (const form2 of deprefix(aff, stem, newFlags, true)) {
        yield form2.replace({ text: word, prefix2: prefix })
      }
    }
  }\<close>\<close>

function deprefix :: "Aff \<Rightarrow> string \<Rightarrow> LKFlags \<Rightarrow> bool \<Rightarrow> AffixForm list" where
  "deprefix aff word flags nested =
     concat (map (\<lambda>prefix.
       (let stem = Affix_apply PREFIX prefix word in
        (AffixForm_new word)\<lparr>f_stem := stem, f_prefix := Some prefix\<rparr> #
        (if \<not> nested \<and> COMPLEXPREFIXES aff
         then (let newFlags = flags\<lparr>lk_prefix := concat_flags (a_flags prefix) (lk_prefix flags)\<rparr>
               in map (\<lambda>form2. form2\<lparr>f_text := word, f_prefix2 := Some prefix\<rparr>)
                      (deprefix aff stem newFlags True))
         else [])))
       (affixes aff PREFIX word flags False))"
  by pat_completeness auto
termination
  by (relation "measure (\<lambda>(aff, word, flags, nested). if nested then 0 else 1)") auto

declare deprefix.simps [simp del]

subsection \<open>\<^verbatim>\<open>decompose\<close> (lines 47-70)\<close>

text \<open>\<^verbatim>\<open>yield new AffixForm(word)
  const suffixAllowed =
    word.pos === undefined || word.pos === CompoundPos.END || flags.suffix.size
  const prefixAllowed =
    word.pos === undefined || word.pos === CompoundPos.BEGIN || flags.prefix.size
  if (suffixAllowed) {
    yield* desuffix(word.aff, word.word, flags)
  }
  if (prefixAllowed) {
    for (const form of deprefix(word.aff, word.word, flags)) {
      yield form
      if (suffixAllowed && form.prefix?.crossproduct) {
        for (const form2 of desuffix(word.aff, form.stem, flags, true)) {
          yield form2.replace({ text: form.text, prefix: form.prefix })
        }
      }
    }
  }\<close>\<close>

definition decompose :: "Aff \<Rightarrow> LKWord \<Rightarrow> LKFlags \<Rightarrow> AffixForm list" where
  "decompose aff word flags =
     (let suffixAllowed = (lw_pos word = None \<or> lw_pos word = Some END \<or> lk_suffix flags \<noteq> {});
          prefixAllowed = (lw_pos word = None \<or> lw_pos word = Some BEGIN \<or> lk_prefix flags \<noteq> {})
      in AffixForm_new (lw_word word) #
         (if suffixAllowed then desuffix aff (lw_word word) flags False False else []) @
         (if prefixAllowed
          then concat (map (\<lambda>form.
                 form #
                 (if suffixAllowed
                     \<and> (case f_prefix form of None \<Rightarrow> False | Some p \<Rightarrow> a_crossproduct p)
                  then map (\<lambda>form2. form2\<lparr>f_text := f_text form, f_prefix := f_prefix form\<rparr>)
                           (desuffix aff (f_stem form) flags True False)
                  else []))
                 (deprefix aff (lw_word word) flags False))
          else []))"

section \<open>Methods of LKWord that derive new words\<close>

text \<open>\<^verbatim>\<open>to(word)\<close>, \<^verbatim>\<open>shift(pos)\<close>, \<^verbatim>\<open>slice(from, to)\<close> with \<open>from \<le> to\<close> both
  non-negative, \<^verbatim>\<open>slice(from)\<close>, and \<^verbatim>\<open>add(str)\<close>, whose argument is the result of
  \<^verbatim>\<open>at\<close> in the one call the model has: \<^verbatim>\<open>this.word + undefined\<close> appends the text
  \<open>undefined\<close>.\<close>

definition LKWord_to :: "LKWord \<Rightarrow> string \<Rightarrow> LKWord" where
  "LKWord_to w s = w\<lparr>lw_word := s\<rparr>"

definition LKWord_shift :: "LKWord \<Rightarrow> CompoundPos \<Rightarrow> LKWord" where
  "LKWord_shift w pos = w\<lparr>lw_pos := Some pos\<rparr>"

definition LKWord_slice :: "LKWord \<Rightarrow> nat \<Rightarrow> nat \<Rightarrow> LKWord" where
  "LKWord_slice w from to = LKWord_to w (take (to - from) (drop from (lw_word w)))"

definition LKWord_slice_from :: "LKWord \<Rightarrow> nat \<Rightarrow> LKWord" where
  "LKWord_slice_from w from = LKWord_to w (drop from (lw_word w))"

definition LKWord_add :: "LKWord \<Rightarrow> char option \<Rightarrow> LKWord" where
  "LKWord_add w c =
     LKWord_to w (lw_word w @ (case c of None \<Rightarrow> ''undefined'' | Some ch \<Rightarrow> [ch]))"

section \<open>Affix forms of a word (\<^verbatim>\<open>src/lookup/affixes.ts\<close>, stored as \<^verbatim>\<open>src/unnamed/part_000\<close>)\<close>

text \<open>The sources hold two revisions of this code: the functions of affixes.ts, which call
  \<^verbatim>\<open>validForm(candidate, word, allowNoSuggest)\<close>, and the methods of LKWord (lk-word.ts,
  lines 517-575), which \<^verbatim>\<open>Lookup.forms\<close> calls and which call
  \<^verbatim>\<open>candidate.valid(this, allowNoSuggest)\<close>; they differ in nothing else. The validator is
  therefore a parameter of the functions below: \<open>valid aff\<close> or \<open>validForm form_has aff\<close>.\<close>

type_synonym Validator = "AffixForm \<Rightarrow> LKWord \<Rightarrow> bool \<Rightarrow> bool"

text \<open>\<^verbatim>\<open>hasForbidden\<close> (part_000, lines 48-55):
  \<^verbatim>\<open>if (!lkword.aff.FORBIDDENWORD) return false
  if (lkword.pos === undefined && !form.hasAffixes) return false
  for (const word of words) {
    if (word.has(lkword.aff.FORBIDDENWORD)) return true
  }
  return false\<close>\<close>

definition hasForbidden :: "Aff \<Rightarrow> LKWord \<Rightarrow> AffixForm \<Rightarrow> Word list \<Rightarrow> bool" where
  "hasForbidden aff lkword form words =
     (if \<not> truthy (FORBIDDENWORD aff) then False
      else if lw_pos lkword = None \<and> \<not> hasAffixes form then False
      else list_ex (\<lambda>word. Word_has word (FORBIDDENWORD aff)) words)"

text \<open>\<^verbatim>\<open>candidates\<close> (part_000, lines 61-76): the candidates it yields; the value it returns,
  \<^verbatim>\<open>found\<close>, is whether it yielded one.
  \<^verbatim>\<open>let found = false
  for (const homonym of homonyms) {
    const candidate = form.replace({ inDictionary: homonym })
    if (validForm(candidate, word, allowNoSuggest)) {
      found = true
      yield candidate
    }
  }
  return found\<close>\<close>

definition candidates :: "Validator \<Rightarrow> LKWord \<Rightarrow> AffixForm \<Rightarrow> bool \<Rightarrow> Word list \<Rightarrow> AffixForm list" where
  "candidates V word form allowNoSuggest hs =
     filter (\<lambda>candidate. V candidate word allowNoSuggest)
            (map (\<lambda>homonym. form\<lparr>f_inDictionary := Some homonym\<rparr>) hs)"

text \<open>\<^verbatim>\<open>affixForms\<close> (part_000, lines 14-46). The body of the loop over the decomposed forms;
  a \<^verbatim>\<open>return\<close> ends the generator, so nothing is yielded for the forms that follow.
  \<^verbatim>\<open>for (const form of decompose(word, flags)) {
    let found = false
    const homonyms = dic.homonyms(form.stem)
    if (homonyms.size) {
      if (!withForbidden && hasForbidden(word, form, homonyms)) return
      found = yield* candidates(word, form, allowNoSuggest, homonyms)
    }
    if (word.pos === CompoundPos.BEGIN && aff.FORCEUCASE && word.type === CapType.INIT) {
      const homonyms = dic.homonyms(lowercase(form.stem), true)
      found = yield* candidates(word, form, allowNoSuggest, homonyms)
    }
    if (found || word.pos !== undefined || word.type !== CapType.ALL) {
      continue
    }
    if (aff.casing.guess(word.word) === CapType.NO) {
      yield* candidates(word, form, allowNoSuggest, dic.homonyms(form.stem, true))
    }
  }\<close>\<close>

fun affixForms_loop ::
  "Validator \<Rightarrow> Util \<Rightarrow> Aff \<Rightarrow> Dic \<Rightarrow> LKWord \<Rightarrow> bool \<Rightarrow> bool \<Rightarrow> AffixForm list
   \<Rightarrow> AffixForm list" where
  "affixForms_loop V u aff dic word allowNoSuggest withForbidden [] = []"
| "affixForms_loop V u aff dic word allowNoSuggest withForbidden (form # rest) =
     (let hs = homonyms u dic (f_stem form) False in
      if hs \<noteq> [] \<and> \<not> withForbidden \<and> hasForbidden aff word form hs then []
      else
        (let c1 = (if hs \<noteq> [] then candidates V word form allowNoSuggest hs else []);
             found1 = (c1 \<noteq> []);
             forceucase = (lw_pos word = Some BEGIN \<and> truthy (FORCEUCASE aff)
                           \<and> lw_type word = INIT);
             c2 = (if forceucase
                   then candidates V word form allowNoSuggest
                          (homonyms u dic (u_lowercase u (f_stem form)) True)
                   else []);
             found2 = (if forceucase then c2 \<noteq> [] else found1);
             c3 = (if found2 \<or> lw_pos word \<noteq> None \<or> lw_type word \<noteq> CapType_ALL then []
                   else if c_guess (casing aff) (lw_word word) = NO
                     then candidates V word form allowNoSuggest
                            (homonyms u dic (f_stem form) True)
                   else [])
         in c1 @ c2 @ c3 @ affixForms_loop V u aff dic word allowNoSuggest withForbidden rest))"

definition affixForms ::
  "Validator \<Rightarrow> Util \<Rightarrow> Aff \<Rightarrow> Dic \<Rightarrow> LKWord \<Rightarrow> bool \<Rightarrow> bool \<Rightarrow> LKFlags \<Rightarrow> AffixForm list" where
  "affixForms V u aff dic word allowNoSuggest withForbidden flags =
     affixForms_loop V u aff dic word allowNoSuggest withForbidden (decompose aff word flags)"

section \<open>Compound forms (\<^verbatim>\<open>src/lookup/compounds.ts\<close>)\<close>

text \<open>The generators \<^verbatim>\<open>compoundsByFlags\<close> and \<^verbatim>\<open>compoundsByRules\<close> call themselves on the
  rest of the word. With \<^verbatim>\<open>COMPOUNDMIN 0\<close> the rest can be the whole word, and without
  \<^verbatim>\<open>COMPOUNDWORDMAX\<close> nothing then bounds the recursion, so the functions below take a
  bound \<open>fuel\<close> on the nesting of the calls and list what the generator yields within that
  nesting. A compound is yielded by the generator exactly when it is listed for some
  \<open>fuel\<close>.\<close>

subsection \<open>\<^verbatim>\<open>compoundsByFlags\<close> (lines 50-106)\<close>

text \<open>\<^verbatim>\<open>const forbiddenFlags: Flags = new Set<string>()
  const permitFlags: Flags = new Set<string>()
  if (aff.COMPOUNDFORBIDFLAG) forbiddenFlags.add(aff.COMPOUNDFORBIDFLAG)
  if (aff.COMPOUNDPERMITFLAG) permitFlags.add(aff.COMPOUNDPERMITFLAG)
  if (depth) {
    const forms = affixForms(word.shift(CompoundPos.END), allowNoSuggest, false,
      new LKFlags({ prefix: permitFlags, forbidden: forbiddenFlags }))
    for (const form of forms) {
      yield [form]
    }
  }
  if (word.length < aff.COMPOUNDMIN * 2) return
  if (aff.COMPOUNDWORDMAX && depth > aff.COMPOUNDWORDMAX) return
  const compoundpos = depth ? CompoundPos.MIDDLE : CompoundPos.BEGIN
  const prefixFlags: Flags = compoundpos === CompoundPos.BEGIN ? new Set() : permitFlags
  for (let pos = aff.COMPOUNDMIN; pos < word.length - aff.COMPOUNDMIN + 1; pos++) {
    const beg = word.slice(0, pos)
    beg.pos = compoundpos
    const rest = word.slice(pos)
    rest.pos = compoundpos
    const flags = LKFlags.from(prefixFlags, permitFlags, forbiddenFlags)
    for (const form of affixForms(beg, allowNoSuggest, false, flags)) {
      for (const partial of compoundsByFlags(rest, allowNoSuggest, depth + 1)) {
        yield [form, ...partial]
      }
    }
    if (aff.SIMPLIFIEDTRIPLE && beg.at(-1) === rest.at(0)) {
      const forms = affixForms(beg.add(beg.at(-1)), allowNoSuggest, false, flags)
      for (const form of forms) {
        for (const partial of compoundsByFlags(rest, allowNoSuggest, depth + 1)) {
          yield [form.replace({ text: beg.word }), ...partial]
        }
      }
    }
  }\<close>
  \<^verbatim>\<open>at\<close> is the method of the second copy of LKWord (\<open>length + n\<close>).\<close>

definition flagSetOf :: "Flag option \<Rightarrow> Flags" where
  "flagSetOf f = (if truthy f then {the f} else {})"

definition wordMaxReached :: "Aff \<Rightarrow> nat \<Rightarrow> bool" where
  "wordMaxReached aff n =
     (case COMPOUNDWORDMAX aff of None \<Rightarrow> False | Some m \<Rightarrow> m \<noteq> 0 \<and> n > m)"

fun compoundsByFlags ::
  "nat \<Rightarrow> Validator \<Rightarrow> Util \<Rightarrow> Aff \<Rightarrow> Dic \<Rightarrow> LKWord \<Rightarrow> bool \<Rightarrow> nat \<Rightarrow> CompoundForm list" where
  "compoundsByFlags 0 V u aff dic word allowNoSuggest depth = []"
| "compoundsByFlags (Suc fuel) V u aff dic word allowNoSuggest depth =
     (let forbiddenFlags = flagSetOf (COMPOUNDFORBIDFLAG aff);
          permitFlags = flagSetOf (COMPOUNDPERMITFLAG aff);
          ends = (if depth \<noteq> 0
                  then map (\<lambda>form. [form])
                         (affixForms V u aff dic (LKWord_shift word END) allowNoSuggest False
                            (LKFlags_new\<lparr>lk_prefix := permitFlags, lk_forbidden := forbiddenFlags\<rparr>))
                  else [])
      in ends @
         (if length (lw_word word) < COMPOUNDMIN aff * 2 then []
          else if wordMaxReached aff depth then []
          else
            (let compoundpos = (if depth \<noteq> 0 then MIDDLE else BEGIN);
                 prefixFlags = (if compoundpos = BEGIN then {} else permitFlags)
             in concat (map (\<lambda>pos.
                  (let beg = (LKWord_slice word 0 pos)\<lparr>lw_pos := Some compoundpos\<rparr>;
                       rest = (LKWord_slice_from word pos)\<lparr>lw_pos := Some compoundpos\<rparr>;
                       flags = LKFlags_from prefixFlags permitFlags forbiddenFlags
                   in concat (map (\<lambda>form.
                          map (\<lambda>partial. form # partial)
                              (compoundsByFlags fuel V u aff dic rest allowNoSuggest (depth + 1)))
                        (affixForms V u aff dic beg allowNoSuggest False flags))
                      @
                      (if SIMPLIFIEDTRIPLE aff \<and> LKWord_at beg (- 1) = LKWord_at rest 0
                       then concat (map (\<lambda>form.
                              map (\<lambda>partial. form\<lparr>f_text := lw_word beg\<rparr> # partial)
                                  (compoundsByFlags fuel V u aff dic rest allowNoSuggest
                                     (depth + 1)))
                            (affixForms V u aff dic (LKWord_add beg (LKWord_at beg (- 1)))
                               allowNoSuggest False flags))
                       else [])))
                  [COMPOUNDMIN aff ..< length (lw_word word) - COMPOUNDMIN aff + 1]))))"

subsection \<open>\<^verbatim>\<open>compoundsByRules\<close> (lines 112-149)\<close>

text \<open>\<^verbatim>\<open>Word.flagSets(parts)\<close> is declared in a later revision of class Word than the one in
  the sources; the first copy of LKWord (lk-word.ts, lines 350-353) has it inline:
  \<^verbatim>\<open>iterate(parts).filter(word => Boolean(word.flags)).map(word => new Set(word.flags!))\<close>.\<close>

definition Word_flagSets :: "Word list \<Rightarrow> Flags list" where
  "Word_flagSets parts = map rootFlagsOf (filter (\<lambda>word. w_flags word \<noteq> None) parts)"

text \<open>\<^verbatim>\<open>if (!rules) rules = [...aff.COMPOUNDRULE]
  if (prev.length) {
    for (const homonym of dic.homonyms(word.word)) {
      const parts = [...prev, homonym]
      const flagSets = Word.flagSets(parts)
      if (rules.some(rule => rule.match(flagSets))) {
        yield [new AffixForm(word)]
      }
    }
  }
  if (word.length < aff.COMPOUNDMIN * 2) return
  if (aff.COMPOUNDWORDMAX && prev.length >= aff.COMPOUNDWORDMAX) return
  for (let pos = aff.COMPOUNDMIN; pos < word.length - aff.COMPOUNDMIN + 1; pos++) {
    const beg = word.slice(0, pos)
    for (const homonynm of dic.homonyms(beg.word)) {
      const parts = [...prev, homonynm]
      const flagSets = Word.flagSets(parts)
      const compoundRules = rules.filter(rule => rule.match(flagSets, true))
      if (compoundRules.length) {
        for (const rest of compoundsByRules(word.slice(pos), parts, compoundRules)) {
          yield [new AffixForm(beg), ...rest]
        }
      }
    }
  }\<close>\<close>

fun compoundsByRules ::
  "nat \<Rightarrow> Util \<Rightarrow> Aff \<Rightarrow> Dic \<Rightarrow> LKWord \<Rightarrow> Word list \<Rightarrow> CompoundRule list option
   \<Rightarrow> CompoundForm list" where
  "compoundsByRules 0 u aff dic word prev rules0 = []"
| "compoundsByRules (Suc fuel) u aff dic word prev rules0 =
     (let rules = (case rules0 of None \<Rightarrow> COMPOUNDRULE aff | Some rs \<Rightarrow> rs);
          ends = (if prev \<noteq> []
                  then concat (map (\<lambda>homonym.
                         (let parts = prev @ [homonym];
                              flagSets = Word_flagSets parts
                          in if list_ex (\<lambda>rule. rule flagSets False) rules
                             then [[AffixForm_new (lw_word word)]] else []))
                       (homonyms u dic (lw_word word) False))
                  else [])
      in ends @
         (if length (lw_word word) < COMPOUNDMIN aff * 2 then []
          else if (case COMPOUNDWORDMAX aff of None \<Rightarrow> False
                   | Some m \<Rightarrow> m \<noteq> 0 \<and> length prev \<ge> m) then []
          else concat (map (\<lambda>pos.
                 (let beg = LKWord_slice word 0 pos
                  in concat (map (\<lambda>homonym.
                       (let parts = prev @ [homonym];
                            flagSets = Word_flagSets parts;
                            compoundRules = filter (\<lambda>rule. rule flagSets True) rules
                        in if compoundRules \<noteq> []
                           then map (\<lambda>rest. AffixForm_new (lw_word beg) # rest)
                                  (compoundsByRules fuel u aff dic (LKWord_slice_from word pos)
                                     parts (Some compoundRules))
                           else []))
                     (homonyms u dic (lw_word beg) False))))
               [COMPOUNDMIN aff ..< length (lw_word word) - COMPOUNDMIN aff + 1])))"

subsection \<open>\<^verbatim>\<open>isBadCompound\<close> (lines 160-227)\<close>

text \<open>The callback of \<^verbatim>\<open>compound.slice(0, -1).some((leftParadigm, idx) => ...)\<close>, in the order
  of its tests; \<open>n\<close> is \<^verbatim>\<open>compound.length\<close>.
  \<^verbatim>\<open>const left = leftParadigm.text
  const rightParadigm = compound[idx + 1]
  const right = rightParadigm.text
  if (dic.hasFlag(left, aff.COMPOUNDFORBIDFLAG)) return true
  if (any(affixForms(word.to(`${left} ${right}`)))) return true
  if (aff.CHECKCOMPOUNDREP) {
    for (const candidate of replchars(left + right, aff.REP)) {
      if (typeof candidate !== "string") continue
      if (any(affixForms(word.to(candidate)))) return true
    }
  }
  if (aff.CHECKCOMPOUNDTRIPLE) {
    if (isTriplet(`${left.slice(-2)}${right.slice(0, 1)}`) ||
        isTriplet(`${left.slice(-1)}${right.slice(0, 2)}`)) return true
  }
  if (aff.CHECKCOMPOUNDCASE) {
    const rightC = right[0]
    const leftC = left[left.length - 1]
    if ((isUppercased(rightC) || isUppercased(leftC)) && rightC !== "-" && leftC !== "-")
      return true
  }
  if (aff.CHECKCOMPOUNDPATTERN.size) {
    for (const pattern of aff.CHECKCOMPOUNDPATTERN) {
      if (pattern.match(leftParadigm, rightParadigm)) return true
    }
  }
  if (aff.CHECKCOMPOUNDDUP) {
    if (left === right && idx === compound.length - 2) return true
  }\<close>\<close>

definition isBadPair ::
  "Validator \<Rightarrow> Util \<Rightarrow> Aff \<Rightarrow> Dic \<Rightarrow> LKWord \<Rightarrow> nat \<Rightarrow> nat \<Rightarrow> AffixForm \<Rightarrow> AffixForm \<Rightarrow> bool" where
  "isBadPair V u aff dic word n idx leftParadigm rightParadigm =
     (let left = f_text leftParadigm;
          right = f_text rightParadigm;
          rightC = js_index right 0;
          leftC = js_index left (int (length left) - 1)
      in
        if hasFlag u dic left (COMPOUNDFORBIDFLAG aff) False then True
        else if affixForms V u aff dic (LKWord_to word (left @ '' '' @ right)) True False
                  LKFlags_new \<noteq> [] then True
        else if CHECKCOMPOUNDREP aff
                \<and> list_ex (\<lambda>candidate.
                     (case candidate of
                        Inl str \<Rightarrow> affixForms V u aff dic (LKWord_to word str) True False
                                     LKFlags_new \<noteq> []
                      | Inr pair \<Rightarrow> False))
                   (u_replchars u (left @ right) (REP aff)) then True
        else if CHECKCOMPOUNDTRIPLE aff
                \<and> (u_isTriplet u (drop (length left - 2) left @ take 1 right)
                    \<or> u_isTriplet u (drop (length left - 1) left @ take 2 right)) then True
        else if CHECKCOMPOUNDCASE aff
                \<and> (u_isUppercased u rightC \<or> u_isUppercased u leftC)
                \<and> rightC \<noteq> Some CHR ''-'' \<and> leftC \<noteq> Some CHR ''-'' then True
        else if list_ex (\<lambda>pattern. pattern leftParadigm rightParadigm)
                  (CHECKCOMPOUNDPATTERN aff) then True
        else if CHECKCOMPOUNDDUP aff \<and> left = right \<and> Suc (Suc idx) = n then True
        else False)"

text \<open>\<^verbatim>\<open>if (aff.FORCEUCASE && word.type !== CapType.ALL && word.type !== CapType.INIT) {
    if (dic.hasFlag(compound[compound.length - 1].text, aff.FORCEUCASE)) return true
  }
  return compound.slice(0, -1).some((leftParadigm, idx) => ...)\<close>
  The compounds that the generators yield are never empty.\<close>

definition isBadCompound ::
  "Validator \<Rightarrow> Util \<Rightarrow> Aff \<Rightarrow> Dic \<Rightarrow> LKWord \<Rightarrow> CompoundForm \<Rightarrow> bool" where
  "isBadCompound V u aff dic word compound =
     (if truthy (FORCEUCASE aff) \<and> lw_type word \<noteq> CapType_ALL \<and> lw_type word \<noteq> INIT
         \<and> hasFlag u dic (f_text (last compound)) (FORCEUCASE aff) False
      then True
      else list_ex (\<lambda>idx. isBadPair V u aff dic word (length compound) idx
                             (compound ! idx) (compound ! Suc idx))
             [0..<length compound - 1])"

subsection \<open>\<^verbatim>\<open>compoundForms\<close> (lines 19-45)\<close>

text \<open>\<^verbatim>\<open>if (aff.FORBIDDENWORD) {
    for (const candidate of affixForms(word, true, true)) {
      if (candidate.flags.has(aff.FORBIDDENWORD)) return
    }
  }
  if (aff.COMPOUNDBEGIN || aff.COMPOUNDFLAG) {
    for (const compound of compoundsByFlags(word, allowNoSuggest)) {
      if (!isBadCompound(word, compound)) yield compound
    }
  }
  if (aff.COMPOUNDRULE.size) {
    for (const compound of compoundsByRules(word)) {
      if (!isBadCompound(word, compound)) yield compound
    }
  }\<close>\<close>

definition compoundForms ::
  "nat \<Rightarrow> Validator \<Rightarrow> Util \<Rightarrow> Aff \<Rightarrow> Dic \<Rightarrow> LKWord \<Rightarrow> bool \<Rightarrow> CompoundForm list" where
  "compoundForms fuel V u aff dic word allowNoSuggest =
     (if truthy (FORBIDDENWORD aff)
         \<and> list_ex (\<lambda>candidate. Set_has (AffixForm_flags candidate) (FORBIDDENWORD aff))
              (affixForms V u aff dic word True True LKFlags_new)
      then []
      else
        (if truthy (COMPOUNDBEGIN aff) \<or> truthy (COMPOUNDFLAG aff)
         then filter (\<lambda>compound. \<not> isBadCompound V u aff dic word compound)
                (compoundsByFlags fuel V u aff dic word allowNoSuggest 0)
         else [])
        @
        (if COMPOUNDRULE aff \<noteq> []
         then filter (\<lambda>compound. \<not> isBadCompound V u aff dic word compound)
                (compoundsByRules fuel u aff dic word [] None)
         else []))"

section \<open>Lookup (\<^verbatim>\<open>src/lookup/index.ts\<close>, class Lookup)\<close>

record LookupResult =
  r_correct :: bool
  r_forbidden :: bool
  r_warn :: bool

text \<open>A form that \<^verbatim>\<open>forms\<close> yields is an AffixForm or a CompoundForm.\<close>

type_synonym WordForm = "AffixForm + CompoundForm"

text \<open>\<^verbatim>\<open>isWarn\<close> (lines 216-218) and \<^verbatim>\<open>isForbidden\<close> (lines 227-232):
  \<^verbatim>\<open>return this.dic.hasFlag(stem, this.aff.WARN, true)\<close>
  \<^verbatim>\<open>return (
    this.dic.hasFlag(stem, this.aff.FORBIDDENWORD, true) ||
    (this.aff.FORBIDWARN && this.dic.hasFlag(stem, this.aff.WARN, true))
  )\<close>\<close>

definition isWarn :: "Util \<Rightarrow> Aff \<Rightarrow> Dic \<Rightarrow> string \<Rightarrow> bool" where
  "isWarn u aff dic stem = hasFlag u dic stem (WARN aff) True"

definition isForbidden :: "Util \<Rightarrow> Aff \<Rightarrow> Dic \<Rightarrow> string \<Rightarrow> bool" where
  "isForbidden u aff dic stem =
     (hasFlag u dic stem (FORBIDDENWORD aff) True
      \<or> (FORBIDWARN aff \<and> hasFlag u dic stem (WARN aff) True))"

text \<open>\<^verbatim>\<open>forms\<close> (lines 120-160). An option that the caller leaves undefined takes its
  default, \<^verbatim>\<open>true\<close>. \<^verbatim>\<open>word.affixForms\<close> and \<^verbatim>\<open>word.compoundForms\<close> are the methods of
  LKWord, modelled by the functions above.
  \<^verbatim>\<open>if (caps) {
    ;[captype, ...variants] = this.aff.casing.variants(word)
  } else {
    captype = this.aff.casing.guess(word)
    variants = [word]
  }
  const lkword = new LKWord(this.aff, this.dic, word, captype)
  for (const variant of variants) {
    const word = lkword.to(variant)
    if (affixForms) {
      for (const form of word.affixForms(allowNoSuggest)) {
        if (
          form.inDictionary &&
          captype === CapType.ALL &&
          includes(this.aff.KEEPCASE, form.flags) &&
          this.aff.isSharps(form.inDictionary.stem) &&
          this.aff.isSharps(lkword.word)
        ) {
          continue
        }
        yield form
      }
    }
    if (compoundForms) yield* word.compoundForms(allowNoSuggest)
  }\<close>\<close>

definition orTrue :: "bool option \<Rightarrow> bool" where
  "orTrue b = (case b of None \<Rightarrow> True | Some v \<Rightarrow> v)"

definition skippedSharps :: "Aff \<Rightarrow> LKWord \<Rightarrow> CapType \<Rightarrow> AffixForm \<Rightarrow> bool" where
  "skippedSharps aff lkword captype form =
     (case f_inDictionary form of
        None \<Rightarrow> False
      | Some d \<Rightarrow> captype = CapType_ALL
                  \<and> includes_flag (KEEPCASE aff) (AffixForm_flags form)
                  \<and> isSharps aff (w_stem d)
                  \<and> isSharps aff (lw_word lkword))"

definition Lookup_forms ::
  "nat \<Rightarrow> Validator \<Rightarrow> Util \<Rightarrow> Aff \<Rightarrow> Dic \<Rightarrow> string
   \<Rightarrow> bool option \<Rightarrow> bool option \<Rightarrow> bool option \<Rightarrow> bool option \<Rightarrow> WordForm list" where
  "Lookup_forms fuel V u aff dic word caps allowNoSuggest affixForms0 compoundForms0 =
     (let cv = (if orTrue caps then c_variants (casing aff) word
                else (c_guess (casing aff) word, [word]));
          captype = fst cv;
          variants = snd cv;
          lkword = \<lparr>lw_word = word, lw_type = captype, lw_pos = None\<rparr>
      in concat (map (\<lambda>variant.
           (let word' = LKWord_to lkword variant
            in (if orTrue affixForms0
                then map Inl (filter (\<lambda>form. \<not> skippedSharps aff lkword captype form)
                                (affixForms V u aff dic word' (orTrue allowNoSuggest) False
                                   LKFlags_new))
                else [])
               @
               (if orTrue compoundForms0
                then map Inr (compoundForms fuel V u aff dic word' (orTrue allowNoSuggest))
                else [])))
           variants))"

text \<open>\<^verbatim>\<open>correct\<close> (lines 171-173):
  \<^verbatim>\<open>return any(this.forms(word, { caps, allowNoSuggest, affixForms, compoundForms }))\<close>\<close>

definition Lookup_correct ::
  "nat \<Rightarrow> Validator \<Rightarrow> Util \<Rightarrow> Aff \<Rightarrow> Dic \<Rightarrow> string
   \<Rightarrow> bool option \<Rightarrow> bool option \<Rightarrow> bool option \<Rightarrow> bool option \<Rightarrow> bool" where
  "Lookup_correct fuel V u aff dic word caps allowNoSuggest affixForms0 compoundForms0 =
     (Lookup_forms fuel V u aff dic word caps allowNoSuggest affixForms0 compoundForms0 \<noteq> [])"

text \<open>\<^verbatim>\<open>String.prototype.replaceAll(ch, "")\<close> for a string \<open>ch\<close>: every occurrence, from
  the left, is removed; an empty \<open>ch\<close> changes nothing.\<close>

function str_removeAll :: "string \<Rightarrow> string \<Rightarrow> string" where
  "str_removeAll ch s =
     (if ch = [] \<or> s = [] then s
      else if take (length ch) s = ch then str_removeAll ch (drop (length ch) s)
      else hd s # str_removeAll ch (tl s))"
  by pat_completeness auto
termination
  by (relation "measure (\<lambda>(ch, s). length s)") auto

declare str_removeAll.simps [simp del]

text \<open>\<^verbatim>\<open>check\<close> (lines 86-109):
  \<^verbatim>\<open>let forbidden = this.isForbidden(word)
  let warn = this.isWarn(word)
  if (forbidden) return { correct: false, forbidden, warn }
  if (this.aff.ICONV) word = this.aff.ICONV.match(word)
  if (this.aff.IGNORE) {
    for (const ch of this.aff.IGNORE) {
      word = word.replaceAll(ch, "")
    }
  }
  if (C.NUMBER_REGEX.test(word)) return { correct: true, forbidden, warn }
  for (const words of breakWord(this.aff, word)) {
    if (words.every(word => this.correct(word, { caps, allowNoSuggest }))) {
      return { correct: true, forbidden, warn }
    }
  }
  return { correct: false, forbidden, warn }\<close>\<close>

definition check ::
  "nat \<Rightarrow> Validator \<Rightarrow> Util \<Rightarrow> Aff \<Rightarrow> Dic \<Rightarrow> string \<Rightarrow> bool \<Rightarrow> bool \<Rightarrow> LookupResult" where
  "check fuel V u aff dic word caps allowNoSuggest =
     (let forbidden = isForbidden u aff dic word;
          warn = isWarn u aff dic word
      in if forbidden then \<lparr>r_correct = False, r_forbidden = forbidden, r_warn = warn\<rparr>
         else
           (let word1 = (case ICONV aff of None \<Rightarrow> word | Some conv \<Rightarrow> conv word);
                word2 = (case IGNORE aff of None \<Rightarrow> word1
                         | Some chs \<Rightarrow> fold str_removeAll chs word1)
            in if u_NUMBER_REGEX u word2
               then \<lparr>r_correct = True, r_forbidden = forbidden, r_warn = warn\<rparr>
               else if list_ex (\<lambda>words.
                          list_all (\<lambda>w. Lookup_correct fuel V u aff dic w (Some caps)
                                          (Some allowNoSuggest) None None) words)
                        (breakWord aff word2 0)
               then \<lparr>r_correct = True, r_forbidden = forbidden, r_warn = warn\<rparr>
               else \<lparr>r_correct = False, r_forbidden = forbidden, r_warn = warn\<rparr>))"

section \<open>Suggestions (\<^verbatim>\<open>src/suggest/index.ts\<close>, stored after ngram.ts in \<^verbatim>\<open>src/src/suggest/ngram.ts\<close>)\<close>

subsection \<open>Suggestion objects (\<^verbatim>\<open>src/unnamed/part_001\<close>)\<close>

datatype SuggestionKind =
  FORCEUCASE_KIND | CASE_KIND | UPPERCASE | REPLCHARS | MAPCHARS | SPACEWORD | DASHES
  | NGRAM | PHONET | SWAPCHAR | LONGSWAPCHAR | BADCHARKEY | EXTRACHAR | FORGOTCHAR
  | MOVECHAR | BADCHAR | DOUBLETWOCHARS | TWOWORDS

record Suggestion =
  s_text :: string
  s_kind :: SuggestionKind

subsection \<open>\<^verbatim>\<open>Suggest.handle\<close> (lines 386-428 of the stored file)\<close>

text \<open>\<^verbatim>\<open>String.prototype.indexOf(" ")\<close>; \<open>None\<close> is \<open>-1\<close>.\<close>

definition indexOf_space :: "string \<Rightarrow> nat option" where
  "indexOf_space s =
     (case filter (\<lambda>i. s ! i = CHR '' '') [0..<length s] of [] \<Rightarrow> None | i # _ \<Rightarrow> Some i)"

text \<open>Appending an optional character to a string: \<^verbatim>\<open>undefined\<close> becomes the text
  \<open>undefined\<close>.\<close>

definition optText :: "char option \<Rightarrow> string" where
  "optText c = (case c of None \<Rightarrow> ''undefined'' | Some ch \<Rightarrow> [ch])"

text \<open>The set \<^verbatim>\<open>handled\<close> is passed in and returned; \<open>None\<close> is the \<^verbatim>\<open>undefined\<close> that
  rejects the suggestion.
  \<^verbatim>\<open>let text = suggestion.text
  if (!this.dic.hasFlag(text, this.aff.KEEPCASE) || this.aff.isSharps(text)) {
    text = this.aff.casing.coerce(text, captype)
    // revert if forbidden
    if (text !== suggestion.text && this.lookup.isForbidden(text)) {
      text = suggestion.text
    }
    if (captype === CapType.HUH || captype === CapType.HUHINIT) {
      const pos = text.indexOf(" ")
      if (pos !== -1) {
        if (text[pos + 1] !== word[pos] && uppercase(text[pos + 1]) === word[pos]) {
          text = text.slice(0, pos + 1) + word[pos] + word.slice(pos + 2)
        }
      }
    }
  }
  if (this.lookup.isForbidden(text)) return
  if (this.aff.OCONV) text = this.aff.OCONV.match(text)
  if (handled.has(text)) return
  if (
    checkInclusion &&
    iterate(handled).some(prev => lowercase(text).includes(lowercase(prev)))
  ) {
    return
  }
  handled.add(text)
  return suggestion.replace(text)\<close>\<close>

definition handle_coerced :: "Util \<Rightarrow> Aff \<Rightarrow> Dic \<Rightarrow> string \<Rightarrow> CapType \<Rightarrow> Suggestion \<Rightarrow> string" where
  "handle_coerced u aff dic word captype suggestion =
     (let text0 = s_text suggestion in
      if \<not> hasFlag u dic text0 (KEEPCASE aff) False \<or> isSharps aff text0
      then
        (let text1 = c_coerce (casing aff) text0 captype;
             text2 = (if text1 \<noteq> s_text suggestion \<and> isForbidden u aff dic text1
                      then s_text suggestion else text1)
         in if captype = HUH \<or> captype = HUHINIT
            then (case indexOf_space text2 of
                    None \<Rightarrow> text2
                  | Some pos \<Rightarrow>
                      if js_index text2 (int pos + 1) \<noteq> js_index word (int pos)
                         \<and> u_uppercase u (js_index text2 (int pos + 1)) = js_index word (int pos)
                      then take (pos + 1) text2 @ optText (js_index word (int pos))
                           @ drop (pos + 2) word
                      else text2)
            else text2)
      else text0)"

definition handle ::
  "Util \<Rightarrow> Aff \<Rightarrow> Dic \<Rightarrow> string \<Rightarrow> CapType \<Rightarrow> string list \<Rightarrow> Suggestion \<Rightarrow> bool
   \<Rightarrow> Suggestion option \<times> string list" where
  "handle u aff dic word captype handled suggestion checkInclusion =
     (let text3 = handle_coerced u aff dic word captype suggestion in
      if isForbidden u aff dic text3 then (None, handled)
      else
        (let text4 = (case OCONV aff of None \<Rightarrow> text3 | Some conv \<Rightarrow> conv text3) in
         if text4 \<in> set handled then (None, handled)
         else if checkInclusion
                 \<and> list_ex (\<lambda>prev. str_includes (u_lowercase u text4) (u_lowercase u prev))
                      handled
           then (None, handled)
         else (Some (suggestion\<lparr>s_text := text4\<rparr>), handled @ [text4])))"

subsection \<open>The words offered to the n-gram and phonetic builders\<close>

text \<open>The constructor of Suggest (lines 193-208 of the stored file):
  \<^verbatim>\<open>const badFlags = iterate([aff.FORBIDDENWORD, aff.NOSUGGEST, aff.ONLYINCOMPOUND])
    .filter(flag => Boolean(flag))
    .toSet()
  this.ngramWords = iterate(dic.words)
    .filter(word => (!word.flags ? true : intersect(word.flags, badFlags).size === 0))
    .toSet()\<close>
  \<^verbatim>\<open>intersect\<close> of \<^verbatim>\<open>src/util\<close> is taken as the intersection of two sets.\<close>

definition badFlags :: "Aff \<Rightarrow> Flags" where
  "badFlags aff =
     set (map the (filter truthy [FORBIDDENWORD aff, NOSUGGEST aff, ONLYINCOMPOUND aff]))"

definition ngramWords :: "Aff \<Rightarrow> Dic \<Rightarrow> Word list" where
  "ngramWords aff dic =
     filter (\<lambda>word. case w_flags word of None \<Rightarrow> True | Some fs \<Rightarrow> fs \<inter> badFlags aff = {}) dic"

text \<open>Modelled from the spec: \<^verbatim>\<open>ScoresList\<close> of \<^verbatim>\<open>src/suggest/scores.ts\<close>, which is not
  among the sources: "a bounded top-N container: \<^verbatim>\<open>add(score, payload)\<close> inserts only if
  better than the current worst of the top N". The entries are kept best first.\<close>

record 'a ScoresList =
  sl_max :: nat
  sl_items :: "(int \<times> 'a) list"

definition ScoresList_add :: "'a ScoresList \<Rightarrow> int \<Rightarrow> 'a \<Rightarrow> 'a ScoresList" where
  "ScoresList_add l score payload =
     (if length (sl_items l) < sl_max l
      then l\<lparr>sl_items := insort_key (\<lambda>e. - fst e) (score, payload) (sl_items l)\<rparr>
      else if sl_items l \<noteq> [] \<and> score > fst (last (sl_items l))
      then l\<lparr>sl_items := insort_key (\<lambda>e. - fst e) (score, payload) (butlast (sl_items l))\<rparr>
      else l)"

text \<open>\<^verbatim>\<open>NgramSuggestionBuilder\<close> (ngram.ts, lines 17-70): the fields that \<^verbatim>\<open>step\<close> uses.
  \<^verbatim>\<open>rootScore\<close> of scores.ts is a parameter.
  \<^verbatim>\<open>step(word: Word) {
    if (Math.abs(word.stem.length - this.misspelling.length) > 4) return
    let score = rootScore(this.misspelling, word.stem)
    if (word.altSpellings?.size) {
      for (const variant of word.altSpellings) {
        score = Math.max(score, rootScore(this.misspelling, variant))
      }
    }
    this.roots.add(score, word)
  }\<close>\<close>

record NgramSuggestionBuilder =
  misspelling :: string
  roots :: "Word ScoresList"

definition NgramSuggestionBuilder_step ::
  "(string \<Rightarrow> string \<Rightarrow> int) \<Rightarrow> NgramSuggestionBuilder \<Rightarrow> Word \<Rightarrow> NgramSuggestionBuilder" where
  "NgramSuggestionBuilder_step rootScore b word =
     (if abs (int (length (w_stem word)) - int (length (misspelling b))) > 4 then b
      else
        (let score0 = rootScore (misspelling b) (w_stem word);
             score = (case w_altSpellings word of
                        None \<Rightarrow> score0
                      | Some variants \<Rightarrow>
                          fold (\<lambda>variant sc. max sc (rootScore (misspelling b) variant))
                               variants score0)
         in b\<lparr>roots := ScoresList_add (roots b) score word\<rparr>))"

text \<open>\<^verbatim>\<open>ngramBuilder(word, handled)\<close> (lines 504-512 of the stored file) constructs the
  builder for \<^verbatim>\<open>lowercase(word)\<close>, and the constructor (ngram.ts, line 50) gives it
  \<^verbatim>\<open>new ScoresList(C.NGRAM_MAX_ROOTS)\<close>; the constant of \<^verbatim>\<open>src/constants\<close> is the parameter
  \<open>maxRoots\<close>.\<close>

definition ngramBuilder :: "Util \<Rightarrow> nat \<Rightarrow> string \<Rightarrow> NgramSuggestionBuilder" where
  "ngramBuilder u maxRoots word =
     \<lparr>misspelling = u_lowercase u word, roots = \<lparr>sl_max = maxRoots, sl_items = []\<rparr>\<rparr>"

text \<open>The loop of \<^verbatim>\<open>Suggest.suggestions\<close> that feeds the builders (lines 294-301 of the
  stored file). \<^verbatim>\<open>PhonetSuggestionBuilder\<close> is not among the sources: the builder that
  \<^verbatim>\<open>phonetBuilder(word)\<close> constructs is the parameter \<open>phonetBuilder\<close>, a state of any type,
  and its \<^verbatim>\<open>step\<close> is the parameter \<open>phonet_step\<close>.
  \<^verbatim>\<open>if (this.aff.MAXNGRAMSUGS || this.aff.PHONE) {
    const ngram = this.aff.MAXNGRAMSUGS ? this.ngramBuilder(word, handled) : null
    const phonet = this.aff.PHONE ? this.phonetBuilder(word) : null
    for (const word of this.ngramWords) {
      if (ngram) ngram.step(word)
      if (phonet) phonet.step(word)
    }\<close>\<close>

definition stepBoth ::
  "(string \<Rightarrow> string \<Rightarrow> int) \<Rightarrow> ('p \<Rightarrow> Word \<Rightarrow> 'p) \<Rightarrow> Word
   \<Rightarrow> NgramSuggestionBuilder option \<times> 'p option \<Rightarrow> NgramSuggestionBuilder option \<times> 'p option" where
  "stepBoth rootScore phonet_step =
     (\<lambda>word (n, p).
        (map_option (\<lambda>b. NgramSuggestionBuilder_step rootScore b word) n,
         map_option (\<lambda>b. phonet_step b word) p))"

definition stepBuilders ::
  "(string \<Rightarrow> string \<Rightarrow> int) \<Rightarrow> ('p \<Rightarrow> Word \<Rightarrow> 'p) \<Rightarrow> Util \<Rightarrow> nat \<Rightarrow> Aff \<Rightarrow> Dic
   \<Rightarrow> string \<Rightarrow> 'p \<Rightarrow> NgramSuggestionBuilder option \<times> 'p option" where
  "stepBuilders rootScore phonet_step u maxRoots aff dic word phonetBuilder =
     (let ngram = (if MAXNGRAMSUGS aff \<noteq> 0 then Some (ngramBuilder u maxRoots word) else None);
          phonet = (if PHONE aff \<noteq> None then Some phonetBuilder else None)
      in fold (stepBoth rootScore phonet_step) (ngramWords aff dic) (ngram, phonet))"

section \<open>Affix data without the compound directives\<close>

text \<open>The affix data with COMPOUNDFLAG, COMPOUNDBEGIN and COMPOUNDRULE left out. Under
  them \<^verbatim>\<open>compoundForms\<close> yields nothing (each of its three branches is guarded by one of
  these directives), so a word that \<^verbatim>\<open>check\<close> accepts under them is accepted through
  single affix forms alone. The definition serves to state that condition; it has no
  counterpart in the sources.\<close>

definition noCompounds :: "Aff \<Rightarrow> Aff" where
  "noCompounds aff = aff\<lparr>COMPOUNDFLAG := None, COMPOUNDBEGIN := None, COMPOUNDRULE := []\<rparr>"

section \<open>Example data\<close>

text \<open>Modelled from the spec: a Casing object for ASCII letters (\<^verbatim>\<open>src/aff/casing.ts\<close> is
  not among the sources; "guess(s) \<rightarrow> CapType by first-letter and all-letter case
  inspection", "variants(s) yields the original plus lowercased and (for HUH/HUHINIT)
  alternate forms", "coerce(s, CapType) reshapes a candidate suggestion to match the
  original's case class"). It is used by the examples only; the general theorems hold for
  every Casing object.\<close>

definition isUpperAscii :: "char \<Rightarrow> bool" where
  "isUpperAscii c = (65 \<le> (of_char c :: nat) \<and> (of_char c :: nat) \<le> 90)"

definition isLowerAscii :: "char \<Rightarrow> bool" where
  "isLowerAscii c = (97 \<le> (of_char c :: nat) \<and> (of_char c :: nat) \<le> 122)"

definition lowercase_ascii :: "string \<Rightarrow> string" where
  "lowercase_ascii s =
     map (\<lambda>c. if isUpperAscii c then char_of ((of_char c :: nat) + 32) else c) s"

definition uppercase_ascii :: "string \<Rightarrow> string" where
  "uppercase_ascii s =
     map (\<lambda>c. if isLowerAscii c then char_of ((of_char c :: nat) - 32) else c) s"

definition ascii_guess :: "string \<Rightarrow> CapType" where
  "ascii_guess s =
     (if \<not> list_ex isUpperAscii s then NO
      else if \<not> list_ex isLowerAscii s then CapType_ALL
      else if isUpperAscii (hd s)
        then (if \<not> list_ex isUpperAscii (tl s) then INIT else HUHINIT)
      else HUH)"

definition ascii_variants :: "string \<Rightarrow> CapType \<times> string list" where
  "ascii_variants s =
     (case ascii_guess s of
        NO \<Rightarrow> (NO, [s])
      | INIT \<Rightarrow> (INIT, [s, lowercase_ascii s])
      | HUHINIT \<Rightarrow> (HUHINIT, [s, lowercase_ascii (take 1 s) @ drop 1 s])
      | HUH \<Rightarrow> (HUH, [s])
      | CapType_ALL \<Rightarrow>
          (CapType_ALL,
           [s, lowercase_ascii s, take 1 s @ lowercase_ascii (drop 1 s)]))"

definition ascii_coerce :: "string \<Rightarrow> CapType \<Rightarrow> string" where
  "ascii_coerce s cap =
     (if cap = INIT \<or> cap = HUHINIT then uppercase_ascii (take 1 s) @ drop 1 s
      else if cap = CapType_ALL then uppercase_ascii s
      else s)"

definition ascii_casing :: Casing where
  "ascii_casing =
     \<lparr>c_guess = ascii_guess, c_variants = ascii_variants, c_coerce = ascii_coerce\<rparr>"

text \<open>Modelled from the spec: the collaborators of \<^verbatim>\<open>src/util\<close>, \<^verbatim>\<open>src/permutations\<close> and
  \<^verbatim>\<open>src/constants\<close> for ASCII text, used by the examples only: lowercasing and
  uppercasing, "three identical letters" (\<^verbatim>\<open>isTriplet\<close>), "apply one REP rule"
  (\<^verbatim>\<open>replchars\<close>, without the two-word results), and "pure-numeric tokens" (\<^verbatim>\<open>NUMBER_REGEX\<close>).\<close>

definition ascii_isTriplet :: "string \<Rightarrow> bool" where
  "ascii_isTriplet s = (length s = 3 \<and> s ! 0 = s ! 1 \<and> s ! 1 = s ! 2)"

definition ascii_replchars :: "string \<Rightarrow> (string \<times> string) list \<Rightarrow> (string + string list) list" where
  "ascii_replchars w rep =
     concat (map (\<lambda>rule.
       map (\<lambda>i. Inl (take i w @ snd rule @ drop (i + length (fst rule)) w))
           (filter (\<lambda>i. fst rule \<noteq> [] \<and> take (length (fst rule)) (drop i w) = fst rule)
                   [0..<length w]))
       rep)"

definition ascii_number :: "string \<Rightarrow> bool" where
  "ascii_number s =
     (s \<noteq> [] \<and> list_all (\<lambda>c. 48 \<le> (of_char c :: nat) \<and> (of_char c :: nat) \<le> 57) s)"

definition ascii_util :: Util where
  "ascii_util =
     \<lparr>u_lowercase = lowercase_ascii,
      u_uppercase = map_option (\<lambda>c. hd (uppercase_ascii [c])),
      u_isUppercased = (\<lambda>c. case c of None \<Rightarrow> False | Some ch \<Rightarrow> isUpperAscii ch),
      u_isTriplet = ascii_isTriplet,
      u_replchars = ascii_replchars,
      u_NUMBER_REGEX = ascii_number\<rparr>"

text \<open>A dictionary word without morphological data or alternate spellings.\<close>

definition entry :: "string \<Rightarrow> Flags option \<Rightarrow> Word" where
  "entry stem fs =
     \<lparr>w_stem = stem, w_capType = ascii_guess stem, w_flags = fs, w_altSpellings = None\<rparr>"

text \<open>\<^verbatim>\<open>FORBIDDENWORD F\<close> with the dictionary \<open>foo/F\<close>, and with the dictionary \<open>foo/F\<close>,
  \<open>foo\<close> (two homonyms, one of them forbidden).\<close>

definition ex_fb_aff :: Aff where
  "ex_fb_aff = (Aff_default ascii_casing)\<lparr>FORBIDDENWORD := Some ''F''\<rparr>"

definition ex_fb_dic :: Dic where
  "ex_fb_dic = [entry ''foo'' (Some {''F''})]"

definition ex_fb_dic2 :: Dic where
  "ex_fb_dic2 = [entry ''foo'' (Some {''F''}), entry ''foo'' None]"

text \<open>\<^verbatim>\<open>FORBIDDENWORD F\<close>, \<^verbatim>\<open>NOSUGGEST S\<close>, \<^verbatim>\<open>ONLYINCOMPOUND O\<close> and a phonetic table, with
  a dictionary of five words of which two are fit to stand alone; the root score of the
  example counts the positions at which two strings agree.\<close>

definition ex_ng_aff :: Aff where
  "ex_ng_aff =
     (Aff_default ascii_casing)\<lparr>FORBIDDENWORD := Some ''F'', NOSUGGEST := Some ''S'',
        ONLYINCOMPOUND := Some ''O'', PHONE := Some []\<rparr>"

definition ex_ng_dic :: Dic where
  "ex_ng_dic =
     [entry ''bad'' (Some {''F''}), entry ''bar'' None, entry ''bat'' (Some {''A'', ''S''}),
      entry ''baz'' (Some {''A''}), entry ''bay'' (Some {''O''})]"

definition ex_rootScore :: "string \<Rightarrow> string \<Rightarrow> int" where
  "ex_rootScore a b = int (length (filter (\<lambda>p. fst p = snd p) (zip a b)))"

text \<open>\<^verbatim>\<open>AffixForm.has\<close> for the examples that run \<^verbatim>\<open>validForm\<close>: whether an affix of the
  form carries the flag. None of these examples configures NEEDAFFIX, so \<^verbatim>\<open>validForm\<close>
  never calls it.\<close>

definition ex_form_has :: "AffixForm \<Rightarrow> Flag option \<Rightarrow> bool" where
  "ex_form_has form f = list_ex (\<lambda>affix. Affix_has affix f) (affixes_of form)"

text \<open>Scenario S4 of the spec: \<^verbatim>\<open>COMPOUNDFLAG C\<close>, \<^verbatim>\<open>COMPOUNDMIN 3\<close>, dictionary \<open>foo/C\<close>,
  \<open>bar/C\<close>; and the Word \<open>foo bar\<close> that is added to it.\<close>

definition ex_cp_aff :: Aff where
  "ex_cp_aff = (Aff_default ascii_casing)\<lparr>COMPOUNDFLAG := Some ''C''\<rparr>"

definition ex_cp_dic :: Dic where
  "ex_cp_dic = [entry ''foo'' (Some {''C''}), entry ''bar'' (Some {''C''})]"

definition ex_cp_new :: Word where
  "ex_cp_new = entry ''foo bar'' None"

definition ex_foobar :: LKWord where
  "ex_foobar = \<lparr>lw_word = ''foobar'', lw_type = NO, lw_pos = None\<rparr>"

text \<open>The Hunspell \<open>simplifiedtriple\<close> situation: \<^verbatim>\<open>COMPOUNDFLAG A\<close>, \<^verbatim>\<open>SIMPLIFIEDTRIPLE\<close>,
  dictionary \<open>glass/A\<close>, \<open>sko/A\<close>, and the word \<open>glassko\<close>.\<close>

definition ex_st_aff :: Aff where
  "ex_st_aff = (Aff_default ascii_casing)\<lparr>COMPOUNDFLAG := Some ''A'', SIMPLIFIEDTRIPLE := True\<rparr>"

definition ex_st_dic :: Dic where
  "ex_st_dic = [entry ''glass'' (Some {''A''}), entry ''sko'' (Some {''A''})]"

definition ex_glassko :: LKWord where
  "ex_glassko = \<lparr>lw_word = ''glassko'', lw_type = NO, lw_pos = None\<rparr>"

text \<open>Scenario S5 of the spec: \<^verbatim>\<open>COMPOUNDRULE AB*C\<close> with the dictionary \<open>red/A\<close>,
  \<open>blue/B\<close>, \<open>green/C\<close>. The rule is given by its \<^verbatim>\<open>match\<close>: the flag sets so far match
  the rule, or with \<open>partial\<close> can be continued to match it.\<close>

fun ex_rule_BsC :: "Flags list \<Rightarrow> bool \<Rightarrow> bool" where
  "ex_rule_BsC [] partial = partial"
| "ex_rule_BsC (fs # rest) partial =
     ((''C'' \<in> fs \<and> rest = []) \<or> (''B'' \<in> fs \<and> ex_rule_BsC rest partial))"

definition ex_rule_ABsC :: CompoundRule where
  "ex_rule_ABsC flagSets partial =
     (case flagSets of [] \<Rightarrow> partial | fs # rest \<Rightarrow> ''A'' \<in> fs \<and> ex_rule_BsC rest partial)"

definition ex_cr_aff :: Aff where
  "ex_cr_aff = (Aff_default ascii_casing)\<lparr>COMPOUNDRULE := [ex_rule_ABsC]\<rparr>"

definition ex_cr_dic :: Dic where
  "ex_cr_dic =
     [entry ''red'' (Some {''A''}), entry ''blue'' (Some {''B''}), entry ''green'' (Some {''C''})]"

definition ex_redgreen :: LKWord where
  "ex_redgreen = \<lparr>lw_word = ''redgreen'', lw_type = NO, lw_pos = None\<rparr>"

text \<open>Scenario S1 of the spec: the suffix class \<open>A\<close> adding \<open>s\<close>, dictionary \<open>hello/A\<close>;
  and the Word \<open>world\<close> that is added to it.\<close>

definition ex_s1_aff :: Aff where
  "ex_s1_aff =
     (Aff_default ascii_casing)\<lparr>SFX :=
        [(''A'', [\<lparr>a_flag = ''A'', a_crossproduct = True, a_strip = [], a_add = ''s'',
                   a_cond = (\<lambda>stem. True), a_flags = {}\<rparr>])]\<rparr>"

definition ex_s1_dic :: Dic where
  "ex_s1_dic = [entry ''hello'' (Some {''A''})]"

definition ex_s1_new :: Word where
  "ex_s1_new = entry ''world'' None"

text \<open>A lowercase word \<open>foo/B\<close> looked at as the first part of a compound, under
  \<^verbatim>\<open>COMPOUNDBEGIN B\<close>.\<close>

definition ex_begin_aff :: Aff where
  "ex_begin_aff = (Aff_default ascii_casing)\<lparr>COMPOUNDBEGIN := Some ''B''\<rparr>"

definition ex_begin_form :: AffixForm where
  "ex_begin_form =
     (AffixForm_new ''foo'')\<lparr>f_inDictionary :=
        Some \<lparr>w_stem = ''foo'', w_capType = NO, w_flags = Some {''B''},
              w_altSpellings = None\<rparr>\<rparr>"

definition ex_begin_word :: LKWord where
  "ex_begin_word = \<lparr>lw_word = ''foo'', lw_type = NO, lw_pos = Some BEGIN\<rparr>"

text \<open>The Hunspell \<open>needaffix\<close> situation: \<^verbatim>\<open>NEEDAFFIX N\<close>, a root \<open>foo/NS\<close> and the
  suffix class \<open>S\<close> adding \<open>s\<close>, whose entry carries no flags; the form is \<open>foos\<close> = \<open>foo\<close> +
  \<open>s\<close>, looked up outside a compound.\<close>

definition ex_na_aff :: Aff where
  "ex_na_aff = (Aff_default ascii_casing)\<lparr>NEEDAFFIX := Some ''N''\<rparr>"

definition ex_na_suffix :: Affix where
  "ex_na_suffix =
     \<lparr>a_flag = ''S'', a_crossproduct = True, a_strip = [], a_add = ''s'',
      a_cond = (\<lambda>stem. True), a_flags = {}\<rparr>"

definition ex_na_form :: AffixForm where
  "ex_na_form =
     \<lparr>f_text = ''foos'', f_stem = ''foo'', f_prefix = None, f_suffix = Some ex_na_suffix,
      f_prefix2 = None, f_suffix2 = None,
      f_inDictionary =
        Some \<lparr>w_stem = ''foo'', w_capType = NO, w_flags = Some {''N'', ''S''},
              w_altSpellings = None\<rparr>\<rparr>"

definition ex_na_word :: LKWord where
  "ex_na_word = \<lparr>lw_word = ''foos'', lw_type = NO, lw_pos = None\<rparr>"

definition ex_abc :: LKWord where
  "ex_abc = \<lparr>lw_word = ''abc'', lw_type = NO, lw_pos = None\<rparr>"

text \<open>Scenario S1 with \<^verbatim>\<open>WARN W\<close> and \<^verbatim>\<open>FORBIDWARN\<close>, and the Word \<open>hellos/W\<close> that is
  added to its dictionary.\<close>

definition ex_warn_aff :: Aff where
  "ex_warn_aff = ex_s1_aff\<lparr>WARN := Some ''W'', FORBIDWARN := True\<rparr>"

definition ex_warn_new :: Word where
  "ex_warn_new = entry ''hellos'' (Some {''W''})"

chapter \<open>Properties\<close>

section \<open>The flags of a form\<close>

text \<open>Claim C6. The flag set of a form is the union of the dictionary word's flags (none
  when no word is bound or the word has no flags), the outer prefix's flags and the outer
  suffix's flags, and replacing the inner prefix \<open>prefix2\<close> and the inner suffix \<open>suffix2\<close>
  by anything leaves it unchanged.\<close>

theorem flags_outer_affixes_only:
  "AffixForm_flags f =
     (case f_inDictionary f of None \<Rightarrow> {} | Some d \<Rightarrow> rootFlagsOf d)
     \<union> (case f_prefix f of None \<Rightarrow> {} | Some p \<Rightarrow> a_flags p)
     \<union> (case f_suffix f of None \<Rightarrow> {} | Some s \<Rightarrow> a_flags s)
   \<and> AffixForm_flags (f\<lparr>f_prefix2 := p2, f_suffix2 := s2\<rparr>) = AffixForm_flags f"
  by (simp add: AffixForm_flags_def concat_flags_def Let_def split: option.splits)

section \<open>Negative indices of \<open>LKWord.at\<close>\<close>

lemma LKWord_at_l96_negative: "n < 0 \<Longrightarrow> LKWord_at_l96 w n = None"
  by (simp add: LKWord_at_l96_def js_index_def)

lemma LKWord_at_from_end:
  assumes "- int (length (lw_word w)) \<le> n" and "n < 0"
  shows "LKWord_at w n = Some (lw_word w ! nat (int (length (lw_word w)) + n))"
  using assms by (simp add: LKWord_at_def js_index_def)

text \<open>Claim C7. In the first copy of the class (lines 96-99) a negative index is subtracted
  from the length, so the read is past the end: on \<open>abc\<close>, \<open>at(-1)\<close> is \<^verbatim>\<open>undefined\<close>,
  where the claim asks for the character at index \<open>3 + (-1)\<close>, \<open>c\<close>. The second copy
  (lines 488-491) returns \<open>c\<close>.\<close>

theorem LKWord_at_l96_minus_one:
  "LKWord_at_l96 ex_abc (- 1) = None
   \<and> js_index (lw_word ex_abc) (int (length (lw_word ex_abc)) + (- 1)) = Some CHR ''c''
   \<and> LKWord_at ex_abc (- 1) = Some CHR ''c''"
  by (simp add: LKWord_at_l96_def LKWord_at_def js_index_def ex_abc_def)

section \<open>The compound-position gate\<close>

lemma valid_position_falls_through:
  "pos \<noteq> None \<Longrightarrow> valid_position aff pos allFlags = includes_flag (COMPOUNDEND aff) allFlags"
  by (cases pos; cases "the pos") (simp_all add: valid_position_def)

lemma validForm_position_independent:
  "validForm_position aff (Some BEGIN) allFlags = includes_flag (COMPOUNDBEGIN aff) allFlags"
  "validForm_position aff (Some MIDDLE) allFlags = includes_flag (COMPOUNDMIDDLE aff) allFlags"
  "validForm_position aff (Some END) allFlags = includes_flag (COMPOUNDEND aff) allFlags"
  by (simp_all add: validForm_position_def)

text \<open>Claim C2. \<open>foo/B\<close> at position BEGIN under \<^verbatim>\<open>COMPOUNDBEGIN B\<close>: the form's flags include
  COMPOUNDBEGIN and not COMPOUNDFLAG, so the claim asks for acceptance. \<^verbatim>\<open>AffixForm.valid\<close>
  falls through the switch to the END case and rejects the form, because its flags do not
  include COMPOUNDEND; \<^verbatim>\<open>validForm\<close>, whose cases return, accepts it.\<close>

theorem valid_BEGIN_requires_COMPOUNDEND:
  "lw_pos ex_begin_word = Some BEGIN
   \<and> includes_flag (COMPOUNDBEGIN ex_begin_aff) (AffixForm_flags ex_begin_form)
   \<and> \<not> includes_flag (COMPOUNDFLAG ex_begin_aff) (AffixForm_flags ex_begin_form)
   \<and> valid ex_begin_aff ex_begin_form ex_begin_word True = False
   \<and> validForm form_has ex_begin_aff ex_begin_form ex_begin_word True = True"
  by (simp add: ex_begin_aff_def ex_begin_form_def ex_begin_word_def Aff_default_def
      AffixForm_new_def valid_def validForm_def valid_position_def validForm_position_def
      valid_NEEDAFFIX_rejects_def validForm_NEEDAFFIX_rejects_def AffixForm_flags_def rootFlagsOf_def
      includes_flag_def truthy_def isSharps_def)

section \<open>The NEEDAFFIX check\<close>

lemma valid_NEEDAFFIX_with_affixes:
  assumes "truthy (NEEDAFFIX aff)" and "hasAffixes form"
  shows "valid_NEEDAFFIX_rejects aff form rootFlags
         = list_all (\<lambda>affix. Affix_has affix (NEEDAFFIX aff)) (affixes_of form)"
  using assms by (simp add: valid_NEEDAFFIX_rejects_def)

lemma valid_NEEDAFFIX_without_affixes:
  assumes "truthy (NEEDAFFIX aff)" and "\<not> hasAffixes form"
  shows "valid_NEEDAFFIX_rejects aff form rootFlags = Set_has rootFlags (NEEDAFFIX aff)"
  using assms by (simp add: valid_NEEDAFFIX_rejects_def)

lemma validForm_NEEDAFFIX_root:
  assumes "truthy (NEEDAFFIX aff)" and "Set_has rootFlags (NEEDAFFIX aff)"
  shows "validForm_NEEDAFFIX_rejects form_has aff form rootFlags"
  using assms by (simp add: validForm_NEEDAFFIX_rejects_def)

text \<open>Claim C4. \<open>foos\<close> = \<open>foo/NS\<close> + suffix \<open>s\<close> under \<^verbatim>\<open>NEEDAFFIX N\<close>: the form has an affix
  that does not carry NEEDAFFIX, so the claim asks that the NEEDAFFIX check let it pass.
  The check of \<^verbatim>\<open>AffixForm.valid\<close> does, and the form is valid; the check of
  \<^verbatim>\<open>validForm\<close> rejects it because the root carries NEEDAFFIX, whatever
  \<^verbatim>\<open>form.has\<close> answers.\<close>

theorem validForm_rejects_NEEDAFFIX_root_with_affix:
  "truthy (NEEDAFFIX ex_na_aff)
   \<and> hasAffixes ex_na_form
   \<and> \<not> list_all (\<lambda>affix. Affix_has affix (NEEDAFFIX ex_na_aff)) (affixes_of ex_na_form)
   \<and> valid_NEEDAFFIX_rejects ex_na_aff ex_na_form {''N'', ''S''} = False
   \<and> valid ex_na_aff ex_na_form ex_na_word True = True
   \<and> validForm_NEEDAFFIX_rejects form_has ex_na_aff ex_na_form {''N'', ''S''} = True
   \<and> validForm form_has ex_na_aff ex_na_form ex_na_word True = False"
  by (simp add: ex_na_aff_def ex_na_form_def ex_na_word_def ex_na_suffix_def Aff_default_def
      valid_def validForm_def valid_NEEDAFFIX_rejects_def validForm_NEEDAFFIX_rejects_def
      AffixForm_flags_def rootFlagsOf_def includes_flag_def truthy_def isSharps_def hasAffixes_def
      affixes_of_def List.map_filter_def Affix_has_def Set_has_def concat_flags_def)

section \<open>Breaking words\<close>

text \<open>Claim C9. For a non-empty text the first split that \<^verbatim>\<open>breakWord(aff, text)\<close> yields
  (depth 0) is the unbroken word alone, so a loop over the splits that stops at the first
  split satisfying a test, as the loop of \<^verbatim>\<open>check\<close> does, tests the whole word first and
  the splits made by BREAK patterns after it.\<close>

theorem breakWord_first_is_whole_word:
  assumes "text \<noteq> []"
  shows "breakWord aff text 0 \<noteq> [] \<and> hd (breakWord aff text 0) = [text]
         \<and> list_ex P (breakWord aff text 0)
           = (P [text] \<or> list_ex P (tl (breakWord aff text 0)))"
  using assms by (subst (1 2 3 4) breakWord.simps) (simp add: filter_Boolean_def)

theorem breakWord_first_is_whole_word_witness:
  "breakWord (Aff_default ascii_casing) ''a-b'' 0 \<noteq> []
   \<and> hd (breakWord (Aff_default ascii_casing) ''a-b'' 0) = [''a-b'']
   \<and> list_ex (\<lambda>words. length words = 2) (breakWord (Aff_default ascii_casing) ''a-b'' 0)
     = (length [''a-b''] = 2
        \<or> list_ex (\<lambda>words. length words = 2)
             (tl (breakWord (Aff_default ascii_casing) ''a-b'' 0)))"
  using breakWord_first_is_whole_word
          [of "''a-b''" "Aff_default ascii_casing" "\<lambda>words. length words = 2"]
  by simp


section \<open>The result of \<open>check\<close>\<close>

text \<open>Claim C1, as amended. Whenever \<^verbatim>\<open>check(word)\<close> reports \<open>forbidden = true\<close> it reports
  \<open>correct = false\<close>: the function returns before any spellchecking when
  \<^verbatim>\<open>isForbidden(word)\<close> holds. So \<open>correct\<close> is not independent of \<open>forbidden\<close>.\<close>

theorem check_forbidden_not_correct:
  assumes "r_forbidden (check fuel V u aff dic word caps allowNoSuggest)"
  shows "\<not> r_correct (check fuel V u aff dic word caps allowNoSuggest)
         \<and> isForbidden u aff dic word"
  using assms by (simp add: check_def Let_def split: if_splits)

theorem check_forbidden_not_correct_witness:
  "r_forbidden (check 5 (valid ex_fb_aff) ascii_util ex_fb_aff ex_fb_dic ''foo'' True True)
   \<and> \<not> r_correct (check 5 (valid ex_fb_aff) ascii_util ex_fb_aff ex_fb_dic ''foo'' True True)
   \<and> isForbidden ascii_util ex_fb_aff ex_fb_dic ''foo''"
proof -
  have h: "r_forbidden (check 5 (valid ex_fb_aff) ascii_util ex_fb_aff ex_fb_dic ''foo'' True True)"
    by code_simp
  from check_forbidden_not_correct [OF h] h show ?thesis by simp
qed

text \<open>The claim as stated fails: with \<^verbatim>\<open>FORBIDDENWORD F\<close> and the dictionary \<open>foo/F\<close>, the
  word \<open>foo\<close> spellchecks (\<^verbatim>\<open>Lookup.correct\<close> holds) and is marked forbidden, and
  \<^verbatim>\<open>check\<close> returns \<open>correct = false\<close> with \<open>forbidden = true\<close>.\<close>

theorem check_correct_and_forbidden_counterexample:
  "Lookup_correct 5 (valid ex_fb_aff) ascii_util ex_fb_aff ex_fb_dic ''foo''
     (Some True) (Some True) None None
   \<and> isForbidden ascii_util ex_fb_aff ex_fb_dic ''foo''
   \<and> check 5 (valid ex_fb_aff) ascii_util ex_fb_aff ex_fb_dic ''foo'' True True
       = \<lparr>r_correct = False, r_forbidden = True, r_warn = False\<rparr>"
  by code_simp

section \<open>Forbidden words among the suggestions\<close>

lemma not_hasFlag_all:
  "\<not> hasFlag u dic stem flag True \<Longrightarrow>
     homonyms u dic stem False = []
     \<or> (\<exists>h \<in> set (homonyms u dic stem False). \<not> Word_has h flag)"
  by (auto simp: hasFlag_def Let_def list_all_iff split: if_splits)

text \<open>Claim C3, as amended. A suggestion that the handler returns is not forbidden in the
  sense of \<^verbatim>\<open>Lookup.isForbidden\<close>, which asks \<^verbatim>\<open>hasFlag\<close> for all homonyms: the text the
  handler tested (the suggestion's text before the output conversion) has no homonym at
  all, or has a homonym that does not carry FORBIDDENWORD.\<close>

theorem handle_not_forbidden:
  assumes "fst (handle u aff dic word captype handled suggestion checkInclusion) = Some s'"
  shows "s_text s' =
           (case OCONV aff of
              None \<Rightarrow> handle_coerced u aff dic word captype suggestion
            | Some conv \<Rightarrow> conv (handle_coerced u aff dic word captype suggestion))
         \<and> \<not> isForbidden u aff dic (handle_coerced u aff dic word captype suggestion)
         \<and> (homonyms u dic (handle_coerced u aff dic word captype suggestion) False = []
            \<or> (\<exists>h \<in> set (homonyms u dic (handle_coerced u aff dic word captype suggestion) False).
                  \<not> Word_has h (FORBIDDENWORD aff)))"
proof -
  let ?t = "handle_coerced u aff dic word captype suggestion"
  from assms have nf: "\<not> isForbidden u aff dic ?t"
    by (auto simp: handle_def Let_def split: if_splits)
  from assms have tx: "s_text s' = (case OCONV aff of None \<Rightarrow> ?t | Some conv \<Rightarrow> conv ?t)"
    by (auto simp: handle_def Let_def split: if_splits)
  from nf have "\<not> hasFlag u dic ?t (FORBIDDENWORD aff) True"
    by (simp add: isForbidden_def)
  from not_hasFlag_all [OF this] nf tx show ?thesis by blast
qed

theorem handle_not_forbidden_witness:
  "fst (handle ascii_util ex_fb_aff ex_fb_dic2 ''fooo'' NO []
          \<lparr>s_text = ''foo'', s_kind = EXTRACHAR\<rparr> False)
     = Some \<lparr>s_text = ''foo'', s_kind = EXTRACHAR\<rparr>
   \<and> \<not> isForbidden ascii_util ex_fb_aff ex_fb_dic2 ''foo''
   \<and> list_ex (\<lambda>h. \<not> Word_has h (FORBIDDENWORD ex_fb_aff))
        (homonyms ascii_util ex_fb_dic2 ''foo'' False)"
proof -
  have h: "fst (handle ascii_util ex_fb_aff ex_fb_dic2 ''fooo'' NO []
                  \<lparr>s_text = ''foo'', s_kind = EXTRACHAR\<rparr> False)
             = Some \<lparr>s_text = ''foo'', s_kind = EXTRACHAR\<rparr>"
    by code_simp
  have c: "handle_coerced ascii_util ex_fb_aff ex_fb_dic2 ''fooo'' NO
             \<lparr>s_text = ''foo'', s_kind = EXTRACHAR\<rparr> = ''foo''"
    by code_simp
  have e: "homonyms ascii_util ex_fb_dic2 ''foo'' False \<noteq> []"
    by code_simp
  from handle_not_forbidden [OF h] c e h show ?thesis
    by (auto simp: list_ex_iff)
qed

text \<open>The claim as stated fails: with \<^verbatim>\<open>FORBIDDENWORD F\<close> and the dictionary \<open>foo/F\<close>,
  \<open>foo\<close>, the candidate \<open>foo\<close> (what deleting one letter of the misspelling \<open>fooo\<close> gives)
  passes the filter of the suggester (\<^verbatim>\<open>Suggest.correct\<close>, which is \<^verbatim>\<open>Lookup.correct\<close> with
  \<open>caps\<close> and \<open>allowNoSuggest\<close> false), the handler returns it, and one of its homonyms
  carries FORBIDDENWORD.\<close>

theorem handle_forbidden_homonym_counterexample:
  "Lookup_correct 5 (valid ex_fb_aff) ascii_util ex_fb_aff ex_fb_dic2 ''foo''
     (Some False) (Some False) (Some True) None
   \<and> handle ascii_util ex_fb_aff ex_fb_dic2 ''fooo'' NO []
        \<lparr>s_text = ''foo'', s_kind = EXTRACHAR\<rparr> False
       = (Some \<lparr>s_text = ''foo'', s_kind = EXTRACHAR\<rparr>, [''foo''])
   \<and> list_ex (\<lambda>h. Word_has h (FORBIDDENWORD ex_fb_aff))
        (homonyms ascii_util ex_fb_dic2 ''foo'' False)"
  by code_simp


section \<open>The words offered to the suggestion builders\<close>

lemma ScoresList_add_items:
  "snd ` set (sl_items (ScoresList_add l score x)) \<subseteq> insert x (snd ` set (sl_items l))"
  by (auto simp: ScoresList_add_def set_insort_key dest: in_set_butlastD)

lemma step_roots:
  "snd ` set (sl_items (roots (NgramSuggestionBuilder_step rootScore b w)))
     \<subseteq> insert w (snd ` set (sl_items (roots b)))"
proof (cases "abs (int (length (w_stem w)) - int (length (misspelling b))) > 4")
  case True
  then show ?thesis by (auto simp: NgramSuggestionBuilder_step_def)
next
  case False
  then show ?thesis
    using ScoresList_add_items [of "roots b" _ w]
    by (simp add: NgramSuggestionBuilder_step_def Let_def)
qed

lemma fold_ngram_roots:
  "fst (fold (stepBoth rootScore phonet_step) ws (n, p)) = Some b \<Longrightarrow>
   \<exists>b0. n = Some b0 \<and>
     snd ` set (sl_items (roots b)) \<subseteq> snd ` set (sl_items (roots b0)) \<union> set ws"
proof (induction ws arbitrary: n p)
  case Nil
  then show ?case by simp
next
  case (Cons w ws)
  from Cons.prems obtain b1 where
    b1: "map_option (\<lambda>b. NgramSuggestionBuilder_step rootScore b w) n = Some b1"
    and sub: "snd ` set (sl_items (roots b)) \<subseteq> snd ` set (sl_items (roots b1)) \<union> set ws"
    using Cons.IH [of "map_option (\<lambda>b. NgramSuggestionBuilder_step rootScore b w) n"
                      "map_option (\<lambda>b. phonet_step b w) p"]
    by (auto simp: stepBoth_def)
  from b1 obtain b0 where n: "n = Some b0" and b1': "b1 = NgramSuggestionBuilder_step rootScore b0 w"
    by auto
  have "snd ` set (sl_items (roots b1)) \<subseteq> insert w (snd ` set (sl_items (roots b0)))"
    unfolding b1' by (rule step_roots)
  with sub have "snd ` set (sl_items (roots b)) \<subseteq> snd ` set (sl_items (roots b0)) \<union> set (w # ws)"
    by (simp add: subset_iff) blast
  with n show ?case by blast
qed

lemma fold_phonet_trace:
  "snd (fold (stepBoth rootScore (\<lambda>trace w. trace @ [w])) ws (n, p)) = map_option (\<lambda>t. t @ ws) p"
  by (induction ws arbitrary: n p)
     (auto simp: stepBoth_def option.map_comp comp_def option.map_ident)

lemma ngramWords_no_badFlag:
  assumes "w \<in> set (ngramWords aff dic)" and "truthy f"
    and "f \<in> {FORBIDDENWORD aff, NOSUGGEST aff, ONLYINCOMPOUND aff}"
  shows "\<not> Word_has w f"
proof -
  from assms(2) obtain x where f: "f = Some x" by (auto simp: truthy_def split: option.splits)
  from assms(2,3) have "the f \<in> badFlags aff"
    by (auto simp: badFlags_def)
  with f have "x \<in> badFlags aff" by simp
  with assms(1) f show ?thesis
    by (auto simp: ngramWords_def Word_has_def Set_has_def rootFlagsOf_def split: option.splits)
qed

text \<open>Claim C10. No Word of \<^verbatim>\<open>ngramWords\<close> carries FORBIDDENWORD, NOSUGGEST or
  ONLYINCOMPOUND, where those are configured (truthy); every root that the n-gram builder
  holds after the loop of \<^verbatim>\<open>suggestions\<close> is a Word of \<^verbatim>\<open>ngramWords\<close>; and the phonetic
  builder is stepped with exactly the Words of \<^verbatim>\<open>ngramWords\<close>, in order (shown for the
  builder that records the Words it is stepped with).\<close>

theorem ngramWords_fit_to_stand_alone:
  "(\<forall>w \<in> set (ngramWords aff dic).
      \<not> (truthy (FORBIDDENWORD aff) \<and> Word_has w (FORBIDDENWORD aff))
      \<and> \<not> (truthy (NOSUGGEST aff) \<and> Word_has w (NOSUGGEST aff))
      \<and> \<not> (truthy (ONLYINCOMPOUND aff) \<and> Word_has w (ONLYINCOMPOUND aff)))
   \<and> (\<forall>b. fst (stepBuilders rootScore phonet_step u maxRoots aff dic word phonetBuilder) = Some b
          \<longrightarrow> snd ` set (sl_items (roots b)) \<subseteq> set (ngramWords aff dic))
   \<and> snd (stepBuilders rootScore (\<lambda>trace w. trace @ [w]) u maxRoots aff dic word [])
       = (if PHONE aff \<noteq> None then Some (ngramWords aff dic) else None)"
proof -
  have flags: "\<forall>w \<in> set (ngramWords aff dic).
      \<not> (truthy (FORBIDDENWORD aff) \<and> Word_has w (FORBIDDENWORD aff))
      \<and> \<not> (truthy (NOSUGGEST aff) \<and> Word_has w (NOSUGGEST aff))
      \<and> \<not> (truthy (ONLYINCOMPOUND aff) \<and> Word_has w (ONLYINCOMPOUND aff))"
    using ngramWords_no_badFlag [of _ aff dic] by blast
  have stepped: "snd ` set (sl_items (roots b)) \<subseteq> set (ngramWords aff dic)"
    if "fst (stepBuilders rootScore phonet_step u maxRoots aff dic word phonetBuilder) = Some b"
    for b
  proof -
    from that have "fst (fold (stepBoth rootScore phonet_step) (ngramWords aff dic)
                 (if MAXNGRAMSUGS aff \<noteq> 0 then Some (ngramBuilder u maxRoots word) else None,
                  if PHONE aff \<noteq> None then Some phonetBuilder else None)) = Some b"
      by (simp add: stepBuilders_def stepBoth_def Let_def)
    from fold_ngram_roots [OF this] show ?thesis
      by (auto simp: ngramBuilder_def split: if_splits)
  qed
  have trace: "snd (stepBuilders rootScore (\<lambda>trace w. trace @ [w]) u maxRoots aff dic word [])
       = (if PHONE aff \<noteq> None then Some (ngramWords aff dic) else None)"
    using fold_phonet_trace [of rootScore "ngramWords aff dic"]
    by (simp add: stepBuilders_def stepBoth_def Let_def)
  from flags stepped trace show ?thesis by blast
qed

theorem ngramWords_fit_to_stand_alone_witness:
  "ngramWords ex_ng_aff ex_ng_dic = [entry ''bar'' None, entry ''baz'' (Some {''A''})]
   \<and> \<not> Word_has (entry ''baz'' (Some {''A''})) (FORBIDDENWORD ex_ng_aff)
   \<and> \<not> Word_has (entry ''baz'' (Some {''A''})) (NOSUGGEST ex_ng_aff)
   \<and> \<not> Word_has (entry ''baz'' (Some {''A''})) (ONLYINCOMPOUND ex_ng_aff)
   \<and> map snd (sl_items (roots (the (fst (stepBuilders ex_rootScore (\<lambda>trace w. trace @ [w])
        ascii_util 1 ex_ng_aff ex_ng_dic ''baz'' [])))))
       = [entry ''baz'' (Some {''A''})]
   \<and> snd (stepBuilders ex_rootScore (\<lambda>trace w. trace @ [w]) ascii_util 1 ex_ng_aff ex_ng_dic
             ''baz'' [])
       = Some [entry ''bar'' None, entry ''baz'' (Some {''A''})]"
proof -
  have w: "ngramWords ex_ng_aff ex_ng_dic = [entry ''bar'' None, entry ''baz'' (Some {''A''})]"
    by code_simp
  have t: "truthy (FORBIDDENWORD ex_ng_aff) \<and> truthy (NOSUGGEST ex_ng_aff)
           \<and> truthy (ONLYINCOMPOUND ex_ng_aff) \<and> PHONE ex_ng_aff \<noteq> None"
    by code_simp
  have r: "map snd (sl_items (roots (the (fst (stepBuilders ex_rootScore (\<lambda>trace w. trace @ [w])
        ascii_util 1 ex_ng_aff ex_ng_dic ''baz'' [])))))
       = [entry ''baz'' (Some {''A''})]"
    by code_simp
  from ngramWords_fit_to_stand_alone [of ex_ng_aff ex_ng_dic ex_rootScore "\<lambda>trace w. trace @ [w]"
      ascii_util 1 "''baz''" "[]"] w t r
  show ?thesis by simp
qed



section \<open>Compound integrity\<close>

lemma desuffix_text: "form \<in> set (desuffix aff word flags cp nested) \<Longrightarrow> f_text form = word"
  by (subst (asm) desuffix.simps) (auto simp: AffixForm_new_def Let_def split: if_splits)

lemma deprefix_text: "form \<in> set (deprefix aff word flags nested) \<Longrightarrow> f_text form = word"
  by (subst (asm) deprefix.simps) (auto simp: AffixForm_new_def Let_def split: if_splits)

lemma decompose_text: "form \<in> set (decompose aff word flags) \<Longrightarrow> f_text form = lw_word word"
  by (auto simp: decompose_def Let_def AffixForm_new_def
           dest: desuffix_text deprefix_text split: if_splits)

lemma candidates_text:
  "c \<in> set (candidates V word form allowNoSuggest hs) \<Longrightarrow> f_text c = f_text form"
  by (auto simp: candidates_def)

lemma affixForms_loop_text:
  "c \<in> set (affixForms_loop V u aff dic word allowNoSuggest withForbidden forms)
   \<Longrightarrow> \<exists>form \<in> set forms. f_text c = f_text form"
proof (induction forms)
  case Nil
  then show ?case by simp
next
  case (Cons form rest)
  then show ?case
    by (auto simp: Let_def dest: candidates_text split: if_splits)
qed

lemma affixForms_text:
  "c \<in> set (affixForms V u aff dic word allowNoSuggest withForbidden flags)
   \<Longrightarrow> f_text c = lw_word word"
  by (auto simp: affixForms_def dest!: affixForms_loop_text dest: decompose_text)

lemma compoundsByFlags_text:
  "c \<in> set (compoundsByFlags fuel V u aff dic word allowNoSuggest depth)
   \<Longrightarrow> concat (map f_text c) = lw_word word"
proof (induction fuel arbitrary: word depth c)
  case 0
  then show ?case by simp
next
  case (Suc fuel)
  from Suc.prems show ?case
    by (auto simp: Let_def LKWord_shift_def LKWord_slice_def LKWord_slice_from_def
                   LKWord_to_def LKWord_add_def
             dest!: affixForms_text Suc.IH split: if_splits)
qed

lemma compoundsByRules_text:
  "c \<in> set (compoundsByRules fuel u aff dic word prev rules)
   \<Longrightarrow> concat (map f_text c) = lw_word word"
proof (induction fuel arbitrary: word prev rules c)
  case 0
  then show ?case by simp
next
  case (Suc fuel)
  from Suc.prems show ?case
    by (auto simp: Let_def LKWord_slice_def LKWord_slice_from_def LKWord_to_def AffixForm_new_def
             dest!: Suc.IH split: if_splits)
qed

lemma compoundForms_text:
  "c \<in> set (compoundForms fuel V u aff dic word allowNoSuggest)
   \<Longrightarrow> concat (map f_text c) = lw_word word"
  by (auto simp: compoundForms_def dest: compoundsByFlags_text compoundsByRules_text
           split: if_splits)

text \<open>Claim C5. Whatever the bound on the nesting, every compound that
  \<^verbatim>\<open>compoundsByFlags\<close> lists (the SIMPLIFIEDTRIPLE retry included, whose form takes the text
  of the shorter left piece), that \<^verbatim>\<open>compoundsByRules\<close> lists, and that \<^verbatim>\<open>compoundForms\<close>
  lets through, has parts whose texts concatenate to the word.\<close>

theorem compound_texts_concatenate:
  "(\<forall>c \<in> set (compoundsByFlags fuel V u aff dic word allowNoSuggest depth).
      concat (map f_text c) = lw_word word)
   \<and> (\<forall>c \<in> set (compoundsByRules fuel u aff dic word prev rules).
        concat (map f_text c) = lw_word word)
   \<and> (\<forall>c \<in> set (compoundForms fuel V u aff dic word allowNoSuggest).
        concat (map f_text c) = lw_word word)"
  by (intro conjI ballI)
     (rule compoundsByFlags_text compoundsByRules_text compoundForms_text, assumption)+

theorem compound_texts_concatenate_witness:
  "map (map f_text) (compoundsByFlags 7 (validForm ex_form_has ex_cp_aff) ascii_util ex_cp_aff
      ex_cp_dic ex_foobar True 0) = [[''foo'', ''bar'']]
   \<and> map (map f_text) (compoundsByFlags 8 (validForm ex_form_has ex_st_aff) ascii_util ex_st_aff
      ex_st_dic ex_glassko True 0) = [[''glas'', ''sko'']]
   \<and> map (map f_stem) (compoundsByFlags 8 (validForm ex_form_has ex_st_aff) ascii_util ex_st_aff
      ex_st_dic ex_glassko True 0) = [[''glass'', ''sko'']]
   \<and> map (map f_text) (compoundsByRules 9 ascii_util ex_cr_aff ex_cr_dic ex_redgreen [] None)
       = [[''red'', ''green'']]
   \<and> map (map f_text) (compoundForms 9 (validForm ex_form_has ex_cr_aff) ascii_util ex_cr_aff
      ex_cr_dic ex_redgreen True) = [[''red'', ''green'']]
   \<and> concat (map f_text (hd (compoundsByFlags 8 (validForm ex_form_has ex_st_aff) ascii_util
        ex_st_aff ex_st_dic ex_glassko True 0))) = ''glassko''
   \<and> concat (map f_text (hd (compoundsByRules 9 ascii_util ex_cr_aff ex_cr_dic ex_redgreen []
        None))) = ''redgreen''
   \<and> concat (map f_text (hd (compoundForms 9 (validForm ex_form_has ex_cr_aff) ascii_util
        ex_cr_aff ex_cr_dic ex_redgreen True))) = ''redgreen''"
proof -
  let ?F = "compoundsByFlags 8 (validForm ex_form_has ex_st_aff) ascii_util ex_st_aff ex_st_dic
              ex_glassko True 0"
  let ?R = "compoundsByRules 9 ascii_util ex_cr_aff ex_cr_dic ex_redgreen [] None"
  let ?C = "compoundForms 9 (validForm ex_form_has ex_cr_aff) ascii_util ex_cr_aff ex_cr_dic
              ex_redgreen True"
  have a: "map (map f_text) (compoundsByFlags 7 (validForm ex_form_has ex_cp_aff) ascii_util
             ex_cp_aff ex_cp_dic ex_foobar True 0) = [[''foo'', ''bar'']]"
    by code_simp
  have f: "map (map f_text) ?F = [[''glas'', ''sko'']]"
    by code_simp
  have s: "map (map f_stem) ?F = [[''glass'', ''sko'']]"
    by code_simp
  have r: "map (map f_text) ?R = [[''red'', ''green'']]"
    by code_simp
  have c: "map (map f_text) ?C = [[''red'', ''green'']]"
    by code_simp
  have w: "lw_word ex_glassko = ''glassko''" "lw_word ex_redgreen = ''redgreen''"
    by (simp_all add: ex_glassko_def ex_redgreen_def)
  from f r c have ne: "hd ?F \<in> set ?F" "hd ?R \<in> set ?R" "hd ?C \<in> set ?C"
    by (auto intro: hd_in_set)
  from compound_texts_concatenate [of 8 "validForm ex_form_has ex_st_aff" ascii_util ex_st_aff
         ex_st_dic ex_glassko True 0] ne(1) w(1)
  have 1: "concat (map f_text (hd ?F)) = ''glassko''" by simp
  from compound_texts_concatenate [of 9 _ ascii_util ex_cr_aff ex_cr_dic ex_redgreen _ _
         "[]" None] ne(2) w(2)
  have 2: "concat (map f_text (hd ?R)) = ''redgreen''" by simp
  from compound_texts_concatenate [of 9 "validForm ex_form_has ex_cr_aff" ascii_util ex_cr_aff
         ex_cr_dic ex_redgreen True] ne(3) w(2)
  have 3: "concat (map f_text (hd ?C)) = ''redgreen''" by simp
  from a f s r c 1 2 3 show ?thesis by simp
qed

section \<open>Enough fuel\<close>

text \<open>With \<^verbatim>\<open>COMPOUNDMIN\<close> at least 1 every recursive call is on a shorter word, so any two
  bounds above the length of the word list the same compounds: the list is then the whole
  output of the generator.\<close>

lemma compoundsByFlags_fuel:
  assumes cmin: "0 < COMPOUNDMIN aff"
  shows "length (lw_word word) < n \<Longrightarrow> length (lw_word word) < m \<Longrightarrow>
         compoundsByFlags n V u aff dic word a depth = compoundsByFlags m V u aff dic word a depth"
proof (induction n arbitrary: m word depth)
  case 0
  then show ?case by simp
next
  case (Suc n)
  from Suc.prems obtain m' where m: "m = Suc m'" by (cases m) auto
  have rec: "compoundsByFlags n V u aff dic ((LKWord_slice_from word pos)\<lparr>lw_pos := Some p\<rparr>) a d
             = compoundsByFlags m' V u aff dic ((LKWord_slice_from word pos)\<lparr>lw_pos := Some p\<rparr>) a d"
    if "COMPOUNDMIN aff \<le> pos"
      and "\<not> length (lw_word word) < COMPOUNDMIN aff * 2" for pos p d
    by (rule Suc.IH) (use that cmin Suc.prems m in \<open>auto simp: LKWord_slice_from_def LKWord_to_def\<close>)
  show ?case
    unfolding m
    apply (simp only: compoundsByFlags.simps compoundsByRules.simps Let_def)
    apply (intro arg_cong2 [where f = "(@)"] refl if_cong arg_cong [where f = concat] map_cong)
    apply (simp_all add: rec del: upt_Suc)
    done
qed

lemma compoundsByRules_fuel:
  assumes cmin: "0 < COMPOUNDMIN aff"
  shows "length (lw_word word) < n \<Longrightarrow> length (lw_word word) < m \<Longrightarrow>
         compoundsByRules n u aff dic word prev rules = compoundsByRules m u aff dic word prev rules"
proof (induction n arbitrary: m word prev rules)
  case 0
  then show ?case by simp
next
  case (Suc n)
  from Suc.prems obtain m' where m: "m = Suc m'" by (cases m) auto
  have rec: "compoundsByRules n u aff dic (LKWord_slice_from word pos) ps rs
             = compoundsByRules m' u aff dic (LKWord_slice_from word pos) ps rs"
    if "COMPOUNDMIN aff \<le> pos"
      and "\<not> length (lw_word word) < COMPOUNDMIN aff * 2" for pos ps rs
    by (rule Suc.IH) (use that cmin Suc.prems m in \<open>auto simp: LKWord_slice_from_def LKWord_to_def\<close>)
  show ?case
    unfolding m
    apply (simp only: compoundsByFlags.simps compoundsByRules.simps Let_def)
    apply (intro arg_cong2 [where f = "(@)"] refl if_cong arg_cong [where f = concat] map_cong)
    apply (simp_all add: rec del: upt_Suc)
    done
qed

lemma compoundForms_fuel:
  assumes "0 < COMPOUNDMIN aff" and "length (lw_word word) < n" and "length (lw_word word) < m"
  shows "compoundForms n V u aff dic word a = compoundForms m V u aff dic word a"
  using compoundsByFlags_fuel [OF assms, of V u dic a 0] compoundsByRules_fuel [OF assms, of u dic "[]" None]
  by (simp add: compoundForms_def)


section \<open>Adding a word to the dictionary\<close>

lemma homonyms_add:
  "homonyms u (Dic_add dic new) stem ci = homonyms u dic stem ci @ homonyms u [new] stem ci"
  by (simp add: homonyms_def Dic_add_def)

lemma homonyms_single: "set (homonyms u [new] stem ci) \<subseteq> {new}"
  by (auto simp: homonyms_def)

lemma candidates_append:
  "candidates V word form a (hs @ hs') = candidates V word form a hs @ candidates V word form a hs'"
  by (simp add: candidates_def)

lemma candidates_Nil: "candidates V word form a [] = []"
  by (simp add: candidates_def)

lemma hasForbidden_add:
  assumes "\<not> Word_has new (FORBIDDENWORD aff)"
  shows "hasForbidden aff word form (hs @ homonyms u [new] stem ci) = hasForbidden aff word form hs"
  using assms homonyms_single [of u new stem ci]
  by (auto simp: hasForbidden_def list_ex_iff)

lemma hasForbidden_Nil: "hasForbidden aff word form [] = False"
  by (simp add: hasForbidden_def)

lemma affixForms_loop_add:
  assumes nf: "\<not> Word_has new (FORBIDDENWORD aff)"
  shows "affixForms_loop V u aff dic word a withF forms \<noteq> []
         \<Longrightarrow> affixForms_loop V u aff (Dic_add dic new) word a withF forms \<noteq> []"
proof (induction forms)
  case Nil
  then show ?case by simp
next
  case (Cons form rest)
  let ?hs = "homonyms u dic (f_stem form) False"
  let ?x = "homonyms u [new] (f_stem form) False"
  have fb: "hasForbidden aff word form (?hs @ ?x) = hasForbidden aff word form ?hs"
    by (rule hasForbidden_add [OF nf])
  show ?case
  proof (cases "?hs \<noteq> [] \<and> \<not> withF \<and> hasForbidden aff word form ?hs")
    case True
    with Cons.prems show ?thesis by simp
  next
    case False
    then have nret: "\<not> ((?hs @ ?x) \<noteq> [] \<and> \<not> withF \<and> hasForbidden aff word form (?hs @ ?x))"
      using fb by (auto simp: hasForbidden_Nil)
    from False Cons.prems Cons.IH nret show ?thesis
      by (simp add: Let_def homonyms_add candidates_append candidates_Nil split: if_splits)
         blast?
  qed
qed


lemma affixForms_add:
  assumes "\<not> Word_has new (FORBIDDENWORD aff)"
    and "affixForms V u aff dic word a withF flags \<noteq> []"
  shows "affixForms V u aff (Dic_add dic new) word a withF flags \<noteq> []"
  using assms by (simp add: affixForms_def affixForms_loop_add)

lemma hasFlag_all_add:
  assumes "hasFlag u (Dic_add dic new) stem flag True" and "\<not> Word_has new flag"
  shows "hasFlag u dic stem flag True"
proof -
  have "homonyms u [new] stem False = [] \<or> homonyms u [new] stem False = [new]"
    by (simp add: homonyms_def)
  with assms show ?thesis
    by (auto simp: hasFlag_def homonyms_add Let_def split: if_splits)
qed

lemma isForbidden_add:
  assumes "\<not> Word_has new (FORBIDDENWORD aff)"
    and "\<not> (FORBIDWARN aff \<and> Word_has new (WARN aff))"
    and "\<not> isForbidden u aff dic w"
  shows "\<not> isForbidden u aff (Dic_add dic new) w"
  using assms by (auto simp: isForbidden_def dest: hasFlag_all_add)

lemma compoundForms_not_configured:
  assumes "\<not> truthy (COMPOUNDBEGIN aff)" and "\<not> truthy (COMPOUNDFLAG aff)"
    and "COMPOUNDRULE aff = []"
  shows "compoundForms fuel V u aff dic word a = []"
  using assms by (simp add: compoundForms_def)

lemma skippedSharps_off: "\<not> CHECKSHARPS aff \<Longrightarrow> skippedSharps aff lkword captype form = False"
  by (simp add: skippedSharps_def isSharps_def split: option.splits)

lemma index_noCompounds:
  "prefixesIndex (noCompounds aff) = prefixesIndex aff"
  "suffixesIndex (noCompounds aff) = suffixesIndex aff"
  by (simp_all add: prefixesIndex_def suffixesIndex_def noCompounds_def)

lemma affixes_noCompounds: "affixes (noCompounds aff) = affixes aff"
  by (intro ext) (simp add: affixes_def index_noCompounds Let_def)

lemma desuffix_noCompounds:
  "desuffix (noCompounds aff) word flags cp nested = desuffix aff word flags cp nested"
proof -
  have nested: "desuffix (noCompounds aff) w f c True = desuffix aff w f c True" for w f c
    by (subst desuffix.simps, subst (2) desuffix.simps) (simp add: affixes_noCompounds)
  show ?thesis
  proof (cases nested)
    case True
    with nested show ?thesis by simp
  next
    case False
    then show ?thesis
      by (subst desuffix.simps, subst (2) desuffix.simps) (simp only: Let_def affixes_noCompounds nested)
  qed
qed

lemma deprefix_noCompounds:
  "deprefix (noCompounds aff) word flags nested = deprefix aff word flags nested"
proof -
  have nested: "deprefix (noCompounds aff) w f True = deprefix aff w f True" for w f
    by (subst deprefix.simps, subst (2) deprefix.simps) (simp add: affixes_noCompounds)
  have c: "COMPLEXPREFIXES (noCompounds aff) = COMPLEXPREFIXES aff"
    by (simp add: noCompounds_def)
  show ?thesis
  proof (cases nested)
    case True
    with nested show ?thesis by simp
  next
    case False
    then show ?thesis
      by (subst deprefix.simps, subst (2) deprefix.simps) (simp only: Let_def affixes_noCompounds nested c)
  qed
qed

lemma decompose_noCompounds: "decompose (noCompounds aff) word flags = decompose aff word flags"
  by (simp only: decompose_def desuffix_noCompounds deprefix_noCompounds Let_def)

lemma affixForms_loop_noCompounds:
  "affixForms_loop V u (noCompounds aff) dic word a withF forms
   = affixForms_loop V u aff dic word a withF forms"
proof (induction forms)
  case Nil
  then show ?case by simp
next
  case (Cons form rest)
  have "hasForbidden (noCompounds aff) = hasForbidden aff"
    by (intro ext) (simp add: hasForbidden_def noCompounds_def)
  moreover have "FORCEUCASE (noCompounds aff) = FORCEUCASE aff" "casing (noCompounds aff) = casing aff"
    by (simp_all add: noCompounds_def)
  ultimately show ?case using Cons.IH by (cases withF) (simp_all add: Let_def)
qed

lemma affixForms_noCompounds:
  "affixForms V u (noCompounds aff) dic word a withF flags = affixForms V u aff dic word a withF flags"
  by (simp add: affixForms_def decompose_noCompounds affixForms_loop_noCompounds)

lemma breakWord_noCompounds: "breakWord (noCompounds aff) t depth = breakWord aff t depth"
proof (induction aff t depth rule: breakWord.induct)
  case (1 aff t depth)
  have b: "BREAK (noCompounds aff) = BREAK aff" by (simp add: noCompounds_def)
  show ?case
    apply (subst breakWord.simps, subst (2) breakWord.simps)
    apply (simp only: b Let_def)
    apply (intro if_cong refl arg_cong2 [where f = "(#)"] arg_cong [where f = concat] map_cong)
    apply (rule "1.IH")
    apply auto
    done
qed


lemma fields_noCompounds:
  "FORBIDDENWORD (noCompounds aff) = FORBIDDENWORD aff"
  "FORBIDWARN (noCompounds aff) = FORBIDWARN aff"
  "WARN (noCompounds aff) = WARN aff"
  "ICONV (noCompounds aff) = ICONV aff"
  "IGNORE (noCompounds aff) = IGNORE aff"
  "CHECKSHARPS (noCompounds aff) = CHECKSHARPS aff"
  "casing (noCompounds aff) = casing aff"
  "\<not> truthy (COMPOUNDBEGIN (noCompounds aff))"
  "\<not> truthy (COMPOUNDFLAG (noCompounds aff))"
  "COMPOUNDRULE (noCompounds aff) = []"
  by (simp_all add: noCompounds_def truthy_def)

lemma Lookup_correct_add_word:
  assumes nf: "\<not> Word_has new (FORBIDDENWORD aff)"
    and ns: "\<not> CHECKSHARPS aff"
    and ok: "Lookup_correct fuel V u (noCompounds aff) dic w caps a af cf"
  shows "Lookup_correct fuel' V u aff (Dic_add dic new) w caps a af cf"
proof -
  let ?cv = "if orTrue caps then c_variants (casing aff) w else (c_guess (casing aff) w, [w])"
  let ?lk = "\<lparr>lw_word = w, lw_type = fst ?cv, lw_pos = None\<rparr>"
  from ns have ns': "\<not> CHECKSHARPS (noCompounds aff)"
    by (simp add: fields_noCompounds)
  from ok obtain v where v: "v \<in> set (snd ?cv)" and af: "orTrue af"
    and forms: "affixForms V u aff dic (LKWord_to ?lk v) (orTrue a) False LKFlags_new \<noteq> []"
    by (auto simp: Lookup_correct_def Lookup_forms_def Let_def fields_noCompounds(7)
                   affixForms_noCompounds skippedSharps_off [OF ns']
                   compoundForms_not_configured [OF fields_noCompounds(8,9,10)]
             split: if_splits)
  from affixForms_add [OF nf forms]
  have "affixForms V u aff (Dic_add dic new) (LKWord_to ?lk v) (orTrue a) False LKFlags_new \<noteq> []" .
  with v af show ?thesis
    by (auto simp: Lookup_correct_def Lookup_forms_def Let_def skippedSharps_off [OF ns])
qed

text \<open>Claim C8, as amended. Adding a Word that carries no FORBIDDENWORD flag (and, when
  FORBIDWARN is set, no WARN flag) to the dictionary leaves correct every word that
  \<^verbatim>\<open>check\<close> accepts without compound forms, that is, under the affix data with the compound
  directives left out, provided CHECKSHARPS is off. The validator is any function of the
  form, the word and \<open>allowNoSuggest\<close>, in particular either revision of the form
  validator; the bounds on the compound recursion before and after are any.\<close>

theorem check_add_word:
  assumes nf: "\<not> Word_has new (FORBIDDENWORD aff)"
    and nw: "\<not> (FORBIDWARN aff \<and> Word_has new (WARN aff))"
    and ns: "\<not> CHECKSHARPS aff"
    and ok: "r_correct (check fuel V u (noCompounds aff) dic w caps a)"
  shows "r_correct (check fuel' V u aff (Dic_add dic new) w caps a)"
proof -
  have fb: "isForbidden u (noCompounds aff) dic w = isForbidden u aff dic w"
    by (simp add: isForbidden_def fields_noCompounds)
  from ok have f: "\<not> isForbidden u aff dic w"
    by (auto simp: check_def Let_def fb split: if_splits)
  have f': "\<not> isForbidden u aff (Dic_add dic new) w"
    by (rule isForbidden_add [OF nf nw f])
  have mono: "Lookup_correct fuel V u (noCompounds aff) dic p (Some caps) (Some a) None None
              \<Longrightarrow> Lookup_correct fuel' V u aff (Dic_add dic new) p (Some caps) (Some a) None None"
    for p
    by (rule Lookup_correct_add_word [OF nf ns])
  from ok f f' show ?thesis
    by (auto simp: check_def Let_def list_ex_iff list_all_iff fb fields_noCompounds(4,5)
                   breakWord_noCompounds
             split: if_splits dest: mono)
qed

lemma breakWord_no_match:
  assumes "\<forall>pattern \<in> set (BREAK aff). pattern text = []"
  shows "breakWord aff text 0 = [filter_Boolean [text]]"
proof -
  have "concat (map (\<lambda>pattern. concat (map (f pattern) (pattern text))) (BREAK aff)) = []" for f
    using assms by auto
  then show ?thesis
    by (subst breakWord.simps) (simp add: Let_def)
qed

lemma check_unbroken:
  assumes "\<not> isForbidden u aff dic w" and "ICONV aff = None" and "IGNORE aff = None"
    and "\<not> u_NUMBER_REGEX u w" and "breakWord aff w 0 = [[w]]"
  shows "r_correct (check fuel V u aff dic w caps a)
         = Lookup_correct fuel V u aff dic w (Some caps) (Some a) None None"
  using assms by (simp add: check_def Let_def)

lemma ex_cp_unbroken: "breakWord ex_cp_aff ''foobar'' 0 = [[''foobar'']]"
  by (subst breakWord_no_match)
     (simp_all add: ex_cp_aff_def Aff_default_def DEFAULT_BREAK_def break_start_dash_def
        break_end_dash_def break_dash_def filter_Boolean_def)

text \<open>The claim as stated fails. In scenario S4 of the spec (\<^verbatim>\<open>COMPOUNDFLAG C\<close>, dictionary
  \<open>foo/C\<close>, \<open>bar/C\<close>) \<open>foobar\<close> is correct. After the Word \<open>foo bar\<close>, which carries no flag,
  is added, \<^verbatim>\<open>isBadCompound\<close> rejects the compound \<open>foo\<close> + \<open>bar\<close>, because \<open>foo bar\<close>
  now spellchecks as a single affix form, and \<open>foobar\<close> is incorrect; with either revision
  of the form validator. The bound 7 is above the length of \<open>foobar\<close>, so by
  \<open>compoundForms_fuel\<close> it cuts nothing off.\<close>

theorem check_add_word_counterexample:
  "\<not> Word_has ex_cp_new (FORBIDDENWORD ex_cp_aff)
   \<and> r_correct (check 7 (validForm ex_form_has ex_cp_aff) ascii_util ex_cp_aff ex_cp_dic
        ''foobar'' True True)
   \<and> \<not> r_correct (check 7 (validForm ex_form_has ex_cp_aff) ascii_util ex_cp_aff
          (Dic_add ex_cp_dic ex_cp_new) ''foobar'' True True)
   \<and> r_correct (check 7 (valid ex_cp_aff) ascii_util ex_cp_aff ex_cp_dic ''foobar'' True True)
   \<and> \<not> r_correct (check 7 (valid ex_cp_aff) ascii_util ex_cp_aff
          (Dic_add ex_cp_dic ex_cp_new) ''foobar'' True True)"
proof -
  have nf: "\<not> Word_has ex_cp_new (FORBIDDENWORD ex_cp_aff)"
    by code_simp
  have pre: "\<not> isForbidden ascii_util ex_cp_aff ex_cp_dic ''foobar''"
    "\<not> isForbidden ascii_util ex_cp_aff (Dic_add ex_cp_dic ex_cp_new) ''foobar''"
    "ICONV ex_cp_aff = None" "IGNORE ex_cp_aff = None"
    "\<not> u_NUMBER_REGEX ascii_util ''foobar''"
    by code_simp+
  have before: "Lookup_correct 7 (validForm ex_form_has ex_cp_aff) ascii_util ex_cp_aff ex_cp_dic
                  ''foobar'' (Some True) (Some True) None None"
    "Lookup_correct 7 (valid ex_cp_aff) ascii_util ex_cp_aff ex_cp_dic
                  ''foobar'' (Some True) (Some True) None None"
    by code_simp+
  have after: "\<not> Lookup_correct 7 (validForm ex_form_has ex_cp_aff) ascii_util ex_cp_aff
                  (Dic_add ex_cp_dic ex_cp_new) ''foobar'' (Some True) (Some True) None None"
    "\<not> Lookup_correct 7 (valid ex_cp_aff) ascii_util ex_cp_aff
                  (Dic_add ex_cp_dic ex_cp_new) ''foobar'' (Some True) (Some True) None None"
    by code_simp+
  from nf before after show ?thesis
    by (simp add: check_unbroken [OF pre(1) pre(3,4,5) ex_cp_unbroken]
                  check_unbroken [OF pre(2) pre(3,4,5) ex_cp_unbroken])
qed

lemma ex_cp_foo_unbroken: "breakWord ex_cp_aff ''foo'' 0 = [[''foo'']]"
  by (subst breakWord_no_match)
     (simp_all add: ex_cp_aff_def Aff_default_def DEFAULT_BREAK_def break_start_dash_def
        break_end_dash_def break_dash_def filter_Boolean_def)

text \<open>In scenario S4 the word \<open>foo\<close> is in the dictionary, so it is correct without compound
  forms, and it stays correct when the Word \<open>foo bar\<close> is added.\<close>

theorem check_add_word_witness:
  "r_correct (check 7 (valid ex_cp_aff) ascii_util (noCompounds ex_cp_aff) ex_cp_dic ''foo''
      True True)
   \<and> r_correct (check 7 (valid ex_cp_aff) ascii_util ex_cp_aff (Dic_add ex_cp_dic ex_cp_new)
        ''foo'' True True)"
proof -
  have c: "\<not> Word_has ex_cp_new (FORBIDDENWORD ex_cp_aff)"
    "\<not> (FORBIDWARN ex_cp_aff \<and> Word_has ex_cp_new (WARN ex_cp_aff))"
    "\<not> CHECKSHARPS ex_cp_aff"
    by (simp_all add: ex_cp_aff_def Aff_default_def Word_has_def Set_has_def)
  have pre: "\<not> isForbidden ascii_util (noCompounds ex_cp_aff) ex_cp_dic ''foo''"
    "ICONV (noCompounds ex_cp_aff) = None" "IGNORE (noCompounds ex_cp_aff) = None"
    "\<not> u_NUMBER_REGEX ascii_util ''foo''"
    by code_simp+
  have unbroken: "breakWord (noCompounds ex_cp_aff) ''foo'' 0 = [[''foo'']]"
    by (simp add: breakWord_noCompounds ex_cp_foo_unbroken)
  have "Lookup_correct 7 (valid ex_cp_aff) ascii_util (noCompounds ex_cp_aff) ex_cp_dic
          ''foo'' (Some True) (Some True) None None"
    by code_simp
  then have ok: "r_correct (check 7 (valid ex_cp_aff) ascii_util (noCompounds ex_cp_aff)
                   ex_cp_dic ''foo'' True True)"
    by (simp add: check_unbroken [OF pre unbroken])
  from check_add_word [OF c ok, of 7] ok show ?thesis by simp
qed

text \<open>The condition on WARN is needed: in scenario S1 with \<^verbatim>\<open>WARN W\<close> and \<^verbatim>\<open>FORBIDWARN\<close>,
  \<open>hellos\<close> is correct; after the Word \<open>hellos/W\<close>, which carries no FORBIDDENWORD flag, is
  added, \<^verbatim>\<open>isForbidden\<close> holds of \<open>hellos\<close> and \<^verbatim>\<open>check\<close> reports it incorrect.\<close>

lemma ex_warn_unbroken: "breakWord ex_warn_aff ''hellos'' 0 = [[''hellos'']]"
  by (subst breakWord_no_match)
     (simp_all add: ex_warn_aff_def ex_s1_aff_def Aff_default_def DEFAULT_BREAK_def
        break_start_dash_def break_end_dash_def break_dash_def filter_Boolean_def)

lemma check_add_warned_word:
  "\<not> Word_has ex_warn_new (FORBIDDENWORD ex_warn_aff)
   \<and> r_correct (check 7 (valid ex_warn_aff) ascii_util ex_warn_aff ex_s1_dic ''hellos'' True True)
   \<and> \<not> r_correct (check 7 (valid ex_warn_aff) ascii_util ex_warn_aff
          (Dic_add ex_s1_dic ex_warn_new) ''hellos'' True True)"
proof -
  have nf: "\<not> Word_has ex_warn_new (FORBIDDENWORD ex_warn_aff)"
    by code_simp
  have pre: "\<not> isForbidden ascii_util ex_warn_aff ex_s1_dic ''hellos''"
    "ICONV ex_warn_aff = None" "IGNORE ex_warn_aff = None"
    "\<not> u_NUMBER_REGEX ascii_util ''hellos''"
    by code_simp+
  have before: "Lookup_correct 7 (valid ex_warn_aff) ascii_util ex_warn_aff ex_s1_dic
                  ''hellos'' (Some True) (Some True) None None"
    by code_simp
  have after: "isForbidden ascii_util ex_warn_aff (Dic_add ex_s1_dic ex_warn_new) ''hellos''"
    by code_simp
  from before have b: "r_correct (check 7 (valid ex_warn_aff) ascii_util ex_warn_aff ex_s1_dic
                          ''hellos'' True True)"
    by (simp add: check_unbroken [OF pre ex_warn_unbroken])
  from after have a: "\<not> r_correct (check 7 (valid ex_warn_aff) ascii_util ex_warn_aff
                          (Dic_add ex_s1_dic ex_warn_new) ''hellos'' True True)"
    by (simp add: check_def Let_def)
  from nf b a show ?thesis by simp
qed

end
